theory Spec2Isabelle
  imports Complex_Main
begin

text \<open>
  A shallow embedding of the NeuroLab backend: the feature engine and the bad-channel
  detection of \<open>app/processing\<close>, the ring buffer of the real-time path, the promotion
  of models and the failure handling of the Celery workers, each followed by the
  properties of the specification that concern it.
\<close>

section \<open>Python and NumPy conventions shared by the models\<close>

text \<open>
  A finite float is modelled as the real number that it is, and a NumPy float is a finite
  number, an infinity or nan.  Where the code truncates the result of float arithmetic to
  an integer (\<open>int(a * b)\<close>), the rounding of each operation decides the integer and is
  modelled: \<open>fl\<close> rounds a real to the nearest number with a significand of 53 bits,
  ties to even, as the operations of a double do.  The exponent is not bounded, so this is
  double arithmetic away from overflow and from subnormal numbers.  Elsewhere the
  arithmetic is exact, and the sign of zero is not modelled.
\<close>

datatype npfloat = Fin real | PosInf | NegInf | NaN

datatype py_error = ZeroDivisionError | ValueError | IndexError | LibraryError string

definition np_div :: "npfloat \<Rightarrow> npfloat \<Rightarrow> npfloat" where
  \<comment> \<open>Division of NumPy floats: dividing by zero warns and yields nan or an infinity,
      it does not raise.\<close>
  "np_div a b =
     (case (a, b) of
        (Fin x, Fin y) \<Rightarrow>
          (if y \<noteq> 0 then Fin (x / y)
           else if x = 0 then NaN else if 0 < x then PosInf else NegInf)
      | (Fin x, PosInf) \<Rightarrow> Fin 0
      | (Fin x, NegInf) \<Rightarrow> Fin 0
      | (PosInf, Fin y) \<Rightarrow> (if 0 \<le> y then PosInf else NegInf)
      | (NegInf, Fin y) \<Rightarrow> (if 0 \<le> y then NegInf else PosInf)
      | _ \<Rightarrow> NaN)"

definition nan_lift :: "(real \<Rightarrow> real) \<Rightarrow> npfloat \<Rightarrow> npfloat" where
  \<comment> \<open>A finite operation on an operand that is finite or nan.\<close>
  "nan_lift f a = (case a of Fin x \<Rightarrow> Fin (f x) | _ \<Rightarrow> NaN)"

definition nan_lift2 :: "(real \<Rightarrow> real \<Rightarrow> real) \<Rightarrow> npfloat \<Rightarrow> npfloat \<Rightarrow> npfloat" where
  "nan_lift2 f a b = (case (a, b) of (Fin x, Fin y) \<Rightarrow> Fin (f x y) | _ \<Rightarrow> NaN)"

definition np_gt :: "npfloat \<Rightarrow> real \<Rightarrow> bool" where
  \<comment> \<open>\<open>a > t\<close>: every comparison with nan is false.\<close>
  "np_gt a t = (case a of Fin x \<Rightarrow> t < x | PosInf \<Rightarrow> True | _ \<Rightarrow> False)"

definition np_lt :: "npfloat \<Rightarrow> real \<Rightarrow> bool" where
  "np_lt a t = (case a of Fin x \<Rightarrow> x < t | NegInf \<Rightarrow> True | _ \<Rightarrow> False)"

definition np_abs :: "npfloat \<Rightarrow> npfloat" where
  "np_abs a = (case a of Fin x \<Rightarrow> Fin \<bar>x\<bar> | NaN \<Rightarrow> NaN | _ \<Rightarrow> PosInf)"

definition is_finite :: "npfloat \<Rightarrow> bool" where
  "is_finite a = (case a of Fin x \<Rightarrow> True | _ \<Rightarrow> False)"

definition py_int :: "real \<Rightarrow> int" where
  \<comment> \<open>Python's \<open>int(x)\<close> on a float truncates toward zero.\<close>
  "py_int x = (if 0 \<le> x then \<lfloor>x\<rfloor> else \<lceil>x\<rceil>)"

definition py_norm :: "nat \<Rightarrow> int \<Rightarrow> nat" where
  \<comment> \<open>A slice bound of Python: a negative bound counts from the end, and every bound is
      clamped to the range of the sequence.\<close>
  "py_norm n i = (if i < 0 then nat (int n + i) else min n (nat i))"

definition py_slice :: "'a list \<Rightarrow> int \<Rightarrow> int \<Rightarrow> 'a list" where
  \<comment> \<open>\<open>xs[s:e]\<close>\<close>
  "py_slice xs s e =
     take (py_norm (length xs) e - py_norm (length xs) s) (drop (py_norm (length xs) s) xs)"

definition py_slice_from :: "'a list \<Rightarrow> int \<Rightarrow> 'a list" where
  \<comment> \<open>\<open>xs[s:]\<close>\<close>
  "py_slice_from xs s = drop (py_norm (length xs) s) xs"

definition trailing :: "nat \<Rightarrow> 'a list \<Rightarrow> 'a list" where
  \<comment> \<open>The last \<open>k\<close> elements of a list (all of it when it is shorter).\<close>
  "trailing k xs = drop (length xs - k) xs"

subsection \<open>Float arithmetic that is truncated to an integer\<close>

definition round_half_even :: "real \<Rightarrow> int" where
  \<comment> \<open>The nearest integer; a tie goes to the even one.\<close>
  "round_half_even x =
     (let f = \<lfloor>x\<rfloor>; d = x - of_int f
      in if d < 1 / 2 then f else if 1 / 2 < d then f + 1 else if even f then f else f + 1)"

definition pow2 :: "int \<Rightarrow> real" where
  "pow2 e = (if 0 \<le> e then 2 ^ nat e else 1 / 2 ^ nat (- e))"

lemma pow2_powr: "pow2 e = 2 powr of_int e"
  by (simp add: pow2_def powr_real_of_int inverse_eq_divide)

text \<open>
  The binary exponent of a positive number \<open>x\<close>, that is the \<open>e\<close> with
  \<open>2 ^ e \<le> x < 2 ^ (e + 1)\<close>, is searched upwards from 0 when \<open>1 \<le> x\<close> and downwards
  from -1 otherwise.
\<close>

function exponent_up :: "real \<Rightarrow> int \<Rightarrow> int" where
  "exponent_up x e = (if x < pow2 (e + 1) then e else exponent_up x (e + 1))"
  by pat_completeness auto

termination exponent_up
proof (relation "measure (\<lambda>(x, e). nat (\<lfloor>log 2 x\<rfloor> - e))")
  show "wf (measure (\<lambda>(x, e). nat (\<lfloor>log 2 x\<rfloor> - e)))" by simp
next
  fix x :: real and e :: int
  assume "\<not> x < pow2 (e + 1)"
  then have le: "2 powr of_int (e + 1) \<le> x" by (simp add: pow2_powr)
  moreover have "0 < (2 :: real) powr of_int (e + 1)" by simp
  ultimately have "0 < x" by linarith
  with le have "of_int (e + 1) \<le> log 2 x" by (simp add: powr_le_iff)
  then have "e + 1 \<le> \<lfloor>log 2 x\<rfloor>" by (simp only: le_floor_iff)
  then show "((x, e + 1), (x, e)) \<in> measure (\<lambda>(x, e). nat (\<lfloor>log 2 x\<rfloor> - e))" by simp
qed

function exponent_down :: "real \<Rightarrow> int \<Rightarrow> int" where
  "exponent_down x e = (if x \<le> 0 \<or> pow2 e \<le> x then e else exponent_down x (e - 1))"
  by pat_completeness auto

termination exponent_down
proof (relation "measure (\<lambda>(x, e). nat (e - \<lfloor>log 2 x\<rfloor>))")
  show "wf (measure (\<lambda>(x, e). nat (e - \<lfloor>log 2 x\<rfloor>)))" by simp
next
  fix x :: real and e :: int
  assume "\<not> (x \<le> 0 \<or> pow2 e \<le> x)"
  then have pos: "0 < x" and lt: "x < 2 powr of_int e" by (simp_all add: pow2_powr)
  then have "log 2 x < of_int e" by (simp add: less_powr_iff)
  then have "\<lfloor>log 2 x\<rfloor> < e" by (simp only: floor_less_iff)
  then show "((x, e - 1), (x, e)) \<in> measure (\<lambda>(x, e). nat (e - \<lfloor>log 2 x\<rfloor>))" by simp
qed

definition exponent :: "real \<Rightarrow> int" where
  "exponent x = (if 1 \<le> x then exponent_up x 0 else exponent_down x (- 1))"

definition fl :: "real \<Rightarrow> real" where
  \<comment> \<open>Rounding to a double: with \<open>2 ^ e \<le> |x| < 2 ^ (e + 1)\<close>, the nearest multiple of
      \<open>2 ^ (e - 52)\<close>, which has a significand of 53 bits.\<close>
  "fl x =
     (if x = 0 then 0
      else (let e = exponent \<bar>x\<bar>
            in of_int (round_half_even (x * pow2 (52 - e))) * pow2 (e - 52)))"

definition fmul :: "real \<Rightarrow> real \<Rightarrow> real" where
  \<comment> \<open>\<open>a * b\<close> on floats: the exact product, rounded\<close>
  "fmul a b = fl (a * b)"

definition fsub :: "real \<Rightarrow> real \<Rightarrow> real" where
  \<comment> \<open>\<open>a - b\<close> on floats: the exact difference, rounded\<close>
  "fsub a b = fl (a - b)"

lemma pow2_pos: "0 < pow2 e"
  by (simp add: pow2_powr)

lemma pow2_succ: "pow2 (e + 1) = 2 * pow2 e"
  by (simp add: pow2_powr powr_add)

lemma pow2_mono: "a \<le> b \<Longrightarrow> pow2 a \<le> pow2 b"
  by (simp add: pow2_powr)

lemma exponent_up_bracket:
  "pow2 e \<le> x \<Longrightarrow> pow2 (exponent_up x e) \<le> x \<and> x < pow2 (exponent_up x e + 1)"
proof (induction x e rule: exponent_up.induct)
  case (1 x e)
  show ?case
  proof (cases "x < pow2 (e + 1)")
    case True
    with "1.prems" show ?thesis by simp
  next
    case False
    then have "pow2 (e + 1) \<le> x" by simp
    from "1.IH" [OF False this] False show ?thesis by simp
  qed
qed

lemma exponent_down_bracket:
  "0 < x \<Longrightarrow> x < pow2 (e + 1)
     \<Longrightarrow> pow2 (exponent_down x e) \<le> x \<and> x < pow2 (exponent_down x e + 1)"
proof (induction x e rule: exponent_down.induct)
  case (1 x e)
  show ?case
  proof (cases "x \<le> 0 \<or> pow2 e \<le> x")
    case True
    with "1.prems" show ?thesis by simp
  next
    case False
    then have "x < pow2 (e - 1 + 1)" by simp
    from "1.IH" [OF False "1.prems"(1) this] False show ?thesis by simp
  qed
qed

text \<open>The search finds the binary exponent of every positive number, and only it.\<close>

lemma exponent_bracket:
  assumes "0 < x"
  shows "pow2 (exponent x) \<le> x \<and> x < pow2 (exponent x + 1)"
proof (cases "1 \<le> x")
  case True
  then have "pow2 0 \<le> x" by (simp add: pow2_def)
  from exponent_up_bracket [OF this] True show ?thesis by (simp add: exponent_def)
next
  case False
  then have "x < pow2 (- 1 + 1)" by (simp add: pow2_def)
  from exponent_down_bracket [OF assms this] False show ?thesis by (simp add: exponent_def)
qed

lemma exponent_eq:
  assumes "pow2 e \<le> x" and "x < pow2 (e + 1)"
  shows "exponent x = e"
proof -
  have pos: "0 < x" using assms(1) pow2_pos [of e] by linarith
  note b = exponent_bracket [OF pos]
  have "\<not> e + 1 \<le> exponent x"
  proof
    assume "e + 1 \<le> exponent x"
    from pow2_mono [OF this] b assms(2) show False by linarith
  qed
  moreover have "\<not> exponent x + 1 \<le> e"
  proof
    assume "exponent x + 1 \<le> e"
    from pow2_mono [OF this] b assms(1) show False by linarith
  qed
  ultimately show ?thesis by linarith
qed

lemma exponent_log: "0 < x \<Longrightarrow> exponent x = \<lfloor>log 2 x\<rfloor>"
  using exponent_bracket [of x] floor_log_eq_powr_iff [of x 2 "exponent x"]
  by (simp add: pow2_powr)

lemma fl_at:
  assumes "pow2 e \<le> \<bar>x\<bar>" and "\<bar>x\<bar> < pow2 (e + 1)"
  shows "fl x = of_int (round_half_even (x * pow2 (52 - e))) * pow2 (e - 52)"
proof -
  have pos: "0 < \<bar>x\<bar>" using assms(1) pow2_pos [of e] by linarith
  with exponent_eq [OF assms] show ?thesis by (simp add: fl_def Let_def)
qed

text \<open>Doubling is exact, and rounding keeps the sign.\<close>

lemma fl_double: "fl (2 * x) = 2 * fl x"
proof (cases "x = 0")
  case True
  then show ?thesis by (simp add: fl_def)
next
  case False
  define e where "e = exponent \<bar>x\<bar>"
  have pos: "0 < \<bar>x\<bar>" using False by simp
  have b: "pow2 e \<le> \<bar>x\<bar>" "\<bar>x\<bar> < pow2 (e + 1)"
    using exponent_bracket [OF pos] by (simp_all add: e_def)
  have p2: "pow2 (e + 1 + 1) = 2 * pow2 (e + 1)" by (rule pow2_succ)
  have b2: "pow2 (e + 1) \<le> \<bar>2 * x\<bar>" "\<bar>2 * x\<bar> < pow2 (e + 1 + 1)"
    unfolding p2 using b by (simp_all add: pow2_succ abs_mult)
  have "pow2 (52 - e) = pow2 (52 - (e + 1) + 1)" by simp
  then have s: "2 * x * pow2 (52 - (e + 1)) = x * pow2 (52 - e)"
    by (simp only: pow2_succ)
  have "pow2 (e + 1 - 52) = pow2 (e - 52 + 1)" by (simp add: algebra_simps)
  then have t: "pow2 (e + 1 - 52) = 2 * pow2 (e - 52)"
    by (simp only: pow2_succ)
  show ?thesis
    by (simp only: fl_at [OF b] fl_at [OF b2] s t)
qed

lemma round_half_even_nonneg: "0 \<le> x \<Longrightarrow> 0 \<le> round_half_even x"
  by (simp add: round_half_even_def Let_def)

lemma round_half_even_nonpos:
  assumes "x \<le> 0"
  shows "round_half_even x \<le> 0"
proof (cases "x = of_int \<lfloor>x\<rfloor>")
  case True
  then have "\<lfloor>x\<rfloor> \<le> 0" using assms by linarith
  with True show ?thesis by (simp add: round_half_even_def Let_def)
next
  case False
  then have "of_int \<lfloor>x\<rfloor> < x" by linarith
  with assms have "\<lfloor>x\<rfloor> + 1 \<le> 0" by linarith
  then show ?thesis by (simp add: round_half_even_def Let_def)
qed

lemma fl_nonneg: "0 \<le> x \<Longrightarrow> 0 \<le> fl x"
  using pow2_pos
  by (simp add: fl_def Let_def round_half_even_nonneg less_imp_le)

lemma fl_nonpos:
  assumes "x \<le> 0"
  shows "fl x \<le> 0"
proof -
  have "round_half_even (x * pow2 e) \<le> 0" for e
    using assms pow2_pos [of e]
    by (intro round_half_even_nonpos) (simp add: mult_le_0_iff less_imp_le)
  then show ?thesis
    using pow2_pos by (simp add: fl_def Let_def mult_le_0_iff less_imp_le)
qed

text \<open>Some doubles.\<close>

lemma fl_half: "fl (1 / 2) = 1 / 2"
  by (subst fl_at [of "-1"]) (simp_all add: pow2_def round_half_even_def)

lemma fl_one: "fl 1 = 1"
  by (subst fl_at [of 0]) (simp_all add: pow2_def round_half_even_def)

lemma fl_two: "fl 2 = 2"
  by (subst fl_at [of 1]) (simp_all add: pow2_def round_half_even_def)

lemma fl_four: "fl 4 = 4"
  by (subst fl_at [of 2]) (simp_all add: pow2_def round_half_even_def)

lemma fl_250: "fl 250 = 250"
  by (subst fl_at [of 7]) (simp_all add: pow2_def round_half_even_def)

lemma fl_500: "fl 500 = 500"
  by (subst fl_at [of 8]) (simp_all add: pow2_def round_half_even_def)

subsection \<open>Dictionaries that keep insertion order\<close>

text \<open>
  A Python dict iterates in insertion order, and assigning to a key that is present keeps
  the key's position.  The order is what fixes the columns of a data frame, so a dict is
  an association list with distinct keys.
\<close>

type_synonym 'v pydict = "(string \<times> 'v) list"

definition dict_set :: "'v pydict \<Rightarrow> string \<Rightarrow> 'v \<Rightarrow> 'v pydict" where
  \<comment> \<open>\<open>d[k] = v\<close>\<close>
  "dict_set d k v =
     (if k \<in> set (map fst d) then map (\<lambda>(k', v'). if k' = k then (k', v) else (k', v')) d
      else d @ [(k, v)])"

definition dict_update :: "'v pydict \<Rightarrow> 'v pydict \<Rightarrow> 'v pydict" where
  \<comment> \<open>\<open>d.update(e)\<close>\<close>
  "dict_update d e = foldl (\<lambda>acc (k, v). dict_set acc k v) d e"

definition dict_get :: "'v pydict \<Rightarrow> string \<Rightarrow> 'v \<Rightarrow> 'v" where
  \<comment> \<open>\<open>d.get(k, default)\<close>\<close>
  "dict_get d k dflt = (case map_of d k of Some v \<Rightarrow> v | None \<Rightarrow> dflt)"

definition keys :: "'v pydict \<Rightarrow> string list" where
  "keys d = map fst d"

subsection \<open>NumPy and SciPy functions on one-dimensional arrays\<close>

definition np_mean :: "real list \<Rightarrow> npfloat" where
  \<comment> \<open>The mean of an empty array is nan (with a warning).\<close>
  "np_mean xs = (if xs = [] then NaN else Fin (sum_list xs / real (length xs)))"

definition central_moment :: "nat \<Rightarrow> real list \<Rightarrow> real" where
  \<comment> \<open>The biased central moment of order \<open>k\<close> of a non-empty array.\<close>
  "central_moment k xs =
     (let mu = sum_list xs / real (length xs)
      in sum_list (map (\<lambda>x. (x - mu) ^ k) xs) / real (length xs))"

definition np_var :: "real list \<Rightarrow> npfloat" where
  "np_var xs = (if xs = [] then NaN else Fin (central_moment 2 xs))"

definition np_std :: "real list \<Rightarrow> npfloat" where
  "np_std xs = (if xs = [] then NaN else Fin (sqrt (central_moment 2 xs)))"

definition stats_skew :: "real list \<Rightarrow> npfloat" where
  \<comment> \<open>\<open>scipy.stats.skew\<close>: nan where the variance is zero.\<close>
  "stats_skew xs =
     (if xs = [] \<or> central_moment 2 xs = 0 then NaN
      else Fin (central_moment 3 xs / (sqrt (central_moment 2 xs)) ^ 3))"

definition stats_kurtosis :: "real list \<Rightarrow> npfloat" where
  \<comment> \<open>\<open>scipy.stats.kurtosis\<close> (Fisher's excess kurtosis, biased): nan where the variance
      is zero.\<close>
  "stats_kurtosis xs =
     (if xs = [] \<or> central_moment 2 xs = 0 then NaN
      else Fin (central_moment 4 xs / (central_moment 2 xs) ^ 2 - 3))"

definition stats_zscore :: "real list \<Rightarrow> npfloat list" where
  \<comment> \<open>\<open>scipy.stats.zscore\<close>: every score is nan where the standard deviation is zero.\<close>
  "stats_zscore xs =
     (let mu = sum_list xs / real (length xs); sd = sqrt (central_moment 2 xs)
      in map (\<lambda>x. np_div (Fin (x - mu)) (Fin sd)) xs)"

definition np_ptp :: "real list \<Rightarrow> py_error + real" where
  \<comment> \<open>Peak to peak; a reduction with no identity raises on an empty array.\<close>
  "np_ptp xs = (if xs = [] then Inl ValueError else Inr (Max (set xs) - Min (set xs)))"

definition np_diff :: "real list \<Rightarrow> real list" where
  "np_diff xs = map (\<lambda>(a, b). b - a) (zip xs (tl xs))"

definition zero_crossings :: "real list \<Rightarrow> int" where
  \<comment> \<open>\<open>np.sum(np.diff(np.sign(data)) != 0)\<close>\<close>
  "zero_crossings xs = int (length (filter (\<lambda>d. d \<noteq> 0) (np_diff (map sgn xs))))"

fun trapz :: "real list \<Rightarrow> real list \<Rightarrow> real" where
  \<comment> \<open>\<open>np.trapz(y, x)\<close>\<close>
  "trapz (y0 # y1 # ys) (x0 # x1 # xs) =
     (x1 - x0) * (y0 + y1) / 2 + trapz (y1 # ys) (x1 # xs)"
| "trapz _ _ = 0"

definition mask_select :: "'a list \<Rightarrow> bool list \<Rightarrow> 'a list" where
  \<comment> \<open>Indexing an array with a boolean mask of the same length.\<close>
  "mask_select xs idx = map fst (filter snd (zip xs idx))"

section \<open>The feature engine of \<open>app/processing/features.py\<close>\<close>

record band =
  name :: string
  low :: real
  high :: real

record FeatureExtractor =
  bands :: "band list"
  welch_window_sec :: real
  entropy_m :: nat
  entropy_r_factor :: real

definition default_bands :: "band list" where
  "default_bands =
     [\<lparr>name = ''delta'', low = 1, high = 4\<rparr>,
      \<lparr>name = ''theta'', low = 4, high = 8\<rparr>,
      \<lparr>name = ''alpha'', low = 8, high = 12\<rparr>,
      \<lparr>name = ''beta'', low = 12, high = 30\<rparr>,
      \<lparr>name = ''gamma'', low = 30, high = 45\<rparr>]"

definition default_extractor :: FeatureExtractor where
  \<comment> \<open>\<open>FeatureExtractor()\<close> with no configuration.\<close>
  "default_extractor =
     \<lparr>bands = default_bands, welch_window_sec = 2, entropy_m = 2, entropy_r_factor = 2 / 10\<rparr>"

text \<open>
  \<open>scipy.signal.welch\<close> is taken as a parameter: called with the data, the sampling
  frequency, \<open>nperseg\<close> and \<open>noverlap\<close>, it raises or returns the frequencies and the
  power spectral density, two arrays of one length.
\<close>

type_synonym welch_fn = "real list \<Rightarrow> real \<Rightarrow> int \<Rightarrow> int \<Rightarrow> py_error + (real list \<times> real list)"

definition band_integral :: "real list \<Rightarrow> real list \<Rightarrow> real \<Rightarrow> real \<Rightarrow> real" where
  \<comment> \<open>The mask \<open>idx\<close> of a band and \<open>np.trapz(psd[idx], freqs[idx])\<close>.\<close>
  "band_integral freqs psd lo hi =
     (let idx = map (\<lambda>f. lo \<le> f \<and> f \<le> hi) freqs
      in trapz (mask_select psd idx) (mask_select freqs idx))"

definition compute_band_powers ::
  "FeatureExtractor \<Rightarrow> welch_fn \<Rightarrow> real list \<Rightarrow> real \<Rightarrow> py_error + npfloat pydict" where
  "compute_band_powers self welch data sfreq =
     (let nperseg = py_int (fmul (welch_window_sec self) sfreq);
          noverlap = nperseg div 2
      in case welch data sfreq nperseg noverlap of
           Inl e \<Rightarrow> Inl e
         | Inr (freqs, psd) \<Rightarrow>
             (let band_powers =
                    foldl (\<lambda>bp b. dict_set bp (''band_'' @ name b)
                                    (Fin (band_integral freqs psd (low b) (high b))))
                      [] (bands self)
              in Inr (dict_set band_powers ''total_power''
                        (Fin (band_integral freqs psd 1 45)))))"

definition compute_relative_band_powers ::
  "FeatureExtractor \<Rightarrow> npfloat pydict \<Rightarrow> npfloat pydict" where
  "compute_relative_band_powers self band_powers =
     (let total = dict_get band_powers ''total_power'' (Fin (1 / 10 ^ 10))
      in foldl (\<lambda>rel b.
                 (let key = ''band_'' @ name b
                  in case map_of band_powers key of
                       Some v \<Rightarrow> dict_set rel (''rel_'' @ name b) (np_div v total)
                     | None \<Rightarrow> rel))
           [] (bands self))"

datatype cell = IntCell int | StrCell string | FloatCell npfloat

definition float_cells :: "npfloat pydict \<Rightarrow> cell pydict" where
  "float_cells d = map (\<lambda>(k, v). (k, FloatCell v)) d"

definition compute_time_features :: "real list \<Rightarrow> py_error + cell pydict" where
  "compute_time_features data =
     (case np_ptp data of
        Inl e \<Rightarrow> Inl e
      | Inr ptp \<Rightarrow>
          Inr [(''mean'', FloatCell (np_mean data)),
               (''std'', FloatCell (np_std data)),
               (''skewness'', FloatCell (stats_skew data)),
               (''kurtosis'', FloatCell (stats_kurtosis data)),
               (''rms'', FloatCell (nan_lift sqrt (np_mean (map (\<lambda>x. x ^ 2) data)))),
               (''peak_to_peak'', FloatCell (Fin ptp)),
               (''zero_crossings'', IntCell (zero_crossings data))])"

definition compute_hjorth :: "real list \<Rightarrow> npfloat pydict" where
  "compute_hjorth data =
     (let d1 = np_diff data;
          d2 = np_diff d1;
          eps = 1 / 10 ^ 10;
          activity = np_var data;
          mobility = nan_lift sqrt (nan_lift2 (\<lambda>v a. v / (a + eps)) (np_var d1) activity);
          mobility_d1 = nan_lift sqrt (nan_lift2 (\<lambda>v w. v / (w + eps)) (np_var d2) (np_var d1));
          complexity = nan_lift2 (\<lambda>m1 m. m1 / (m + eps)) mobility_d1 mobility
      in [(''hjorth_activity'', activity),
          (''hjorth_mobility'', mobility),
          (''hjorth_complexity'', complexity)])"

subsection \<open>Sample entropy\<close>

definition max_abs_diff :: "real list \<Rightarrow> real list \<Rightarrow> py_error + real" where
  \<comment> \<open>\<open>np.max(np.abs(a - b))\<close> for two templates of one length; the maximum of an empty
      array raises.\<close>
  "max_abs_diff a b =
     (if a = [] then Inl ValueError
      else Inr (Max (set (map (\<lambda>(x, y). \<bar>x - y\<bar>) (zip a b)))))"

fun inner_loop :: "real list \<Rightarrow> real list list \<Rightarrow> npfloat \<Rightarrow> nat \<Rightarrow> py_error + nat" where
  \<comment> \<open>\<open>for j in range(i + 1, len(templates))\<close>: the templates after the \<open>i\<close>-th.\<close>
  "inner_loop t [] r count = Inr count"
| "inner_loop t (u # us) r count =
     (case max_abs_diff t u of
        Inl e \<Rightarrow> Inl e
      | Inr d \<Rightarrow> inner_loop t us r (if np_gt r d then count + 2 else count))"

fun outer_loop :: "real list list \<Rightarrow> npfloat \<Rightarrow> nat \<Rightarrow> py_error + nat" where
  \<comment> \<open>\<open>for i in range(len(templates))\<close>\<close>
  "outer_loop [] r count = Inr count"
| "outer_loop (t # ts) r count =
     (case inner_loop t ts r count of
        Inl e \<Rightarrow> Inl e
      | Inr count' \<Rightarrow> outer_loop ts r count')"

definition count_matches :: "real list \<Rightarrow> npfloat \<Rightarrow> nat \<Rightarrow> py_error + nat" where
  "count_matches data r template_length =
     (let N = length data;
          templates = map (\<lambda>i. py_slice data (int i) (int i + int template_length))
                        [0 ..< N - template_length]
      in outer_loop templates r 0)"

definition compute_sample_entropy ::
  "FeatureExtractor \<Rightarrow> real list \<Rightarrow> nat option \<Rightarrow> npfloat option \<Rightarrow> py_error + real" where
  "compute_sample_entropy self data m_arg r_arg =
     (let m = (case m_arg of None \<Rightarrow> entropy_m self | Some m \<Rightarrow> m);
          r = (case r_arg of
                 None \<Rightarrow> nan_lift (\<lambda>s. entropy_r_factor self * s) (np_std data)
               | Some r \<Rightarrow> r);
          N = length data
      in if N < m + 2 then Inr 0
         else case count_matches data r m of
                Inl e \<Rightarrow> Inl e
              | Inr B \<Rightarrow>
                  (case count_matches data r (m + 1) of
                     Inl e \<Rightarrow> Inl e
                   | Inr A \<Rightarrow>
                       (if B = 0 \<or> A = 0 then Inr 0
                        else Inr (- ln (real A / real B)))))"

subsection \<open>The feature table\<close>

text \<open>
  \<open>mne.io.Raw\<close> as far as the code reads it: \<open>get_data()\<close> is an array of shape
  \<open>(len(ch_names), n_times)\<close>, one row per channel.
\<close>

record raw =
  info_sfreq :: real
  ch_names :: "string list"
  ch_is_eeg :: "bool list"
  n_times :: nat
  get_data_rows :: "real list list"
  info_bads :: "string list"

definition wf_raw :: "raw \<Rightarrow> bool" where
  "wf_raw r =
     (length (get_data_rows r) = length (ch_names r)
      \<and> length (ch_is_eeg r) = length (ch_names r)
      \<and> list_all (\<lambda>row. length row = n_times r) (get_data_rows r)
      \<and> distinct (ch_names r))"

record DataFrame =
  columns :: "string list"
  records :: "cell pydict list"

definition pd_DataFrame :: "cell pydict list \<Rightarrow> DataFrame" where
  \<comment> \<open>\<open>pd.DataFrame\<close> of a list of dicts: the columns are the keys in the order in which
      they first appear, one row per dict.\<close>
  "pd_DataFrame rows =
     \<lparr>columns = foldl (\<lambda>cols k. if k \<in> set cols then cols else cols @ [k]) []
                  (concat (map keys rows)),
      records = rows\<rparr>"

definition channel_features ::
  "FeatureExtractor \<Rightarrow> welch_fn \<Rightarrow> real \<Rightarrow> int \<Rightarrow> string \<Rightarrow> real list \<Rightarrow> py_error + cell pydict"
  where
  \<comment> \<open>The body of the loop over the channels of one epoch.\<close>
  "channel_features self welch sfreq epoch_idx ch_name ch_data =
     (let features = [(''epoch_id'', IntCell epoch_idx), (''channel'', StrCell ch_name)]
      in case compute_band_powers self welch ch_data sfreq of
           Inl e \<Rightarrow> Inl e
         | Inr band_powers \<Rightarrow>
             (let features = dict_update features (float_cells band_powers);
                  rel_powers = compute_relative_band_powers self band_powers;
                  features = dict_update features (float_cells rel_powers)
              in case compute_time_features ch_data of
                   Inl e \<Rightarrow> Inl e
                 | Inr time_features \<Rightarrow>
                     (let features = dict_update features time_features;
                          hjorth = compute_hjorth ch_data;
                          features = dict_update features (float_cells hjorth)
                      in case compute_sample_entropy self ch_data None None of
                           Inl e \<Rightarrow> Inl e
                         | Inr entropy \<Rightarrow>
                             Inr (dict_set features ''sample_entropy''
                                    (FloatCell (Fin entropy))))))"

fun channel_loop ::
  "(int \<Rightarrow> string \<Rightarrow> real list \<Rightarrow> py_error + 'r) \<Rightarrow> int \<Rightarrow> real list list \<Rightarrow>
     (nat \<times> string) list \<Rightarrow> py_error + 'r list" where
  \<comment> \<open>\<open>for ch_idx, ch_name in enumerate(ch_names)\<close>\<close>
  "channel_loop body epoch_idx epoch_data [] = Inr []"
| "channel_loop body epoch_idx epoch_data ((ch_idx, ch_name) # rest) =
     (if ch_idx < length epoch_data
      then case body epoch_idx ch_name (epoch_data ! ch_idx) of
             Inl e \<Rightarrow> Inl e
           | Inr features \<Rightarrow>
               (case channel_loop body epoch_idx epoch_data rest of
                  Inl e \<Rightarrow> Inl e
                | Inr others \<Rightarrow> Inr (features # others))
      else Inl IndexError)"

fun epoch_loop ::
  "(int \<Rightarrow> string \<Rightarrow> real list \<Rightarrow> py_error + 'r) \<Rightarrow> raw \<Rightarrow> int \<Rightarrow> int \<Rightarrow> int list \<Rightarrow>
     py_error + 'r list" where
  \<comment> \<open>\<open>for epoch_idx in range(n_epochs)\<close>, with its \<open>break\<close>\<close>
  "epoch_loop body r step epoch_samples [] = Inr []"
| "epoch_loop body r step epoch_samples (epoch_idx # rest) =
     (let start = epoch_idx * step;
          stop = start + epoch_samples
      in if stop > int (n_times r) then Inr []
         else
           (let epoch_data = map (\<lambda>row. py_slice row start stop) (get_data_rows r)
            in case channel_loop body epoch_idx epoch_data
                      (zip [0 ..< length (ch_names r)] (ch_names r)) of
                 Inl e \<Rightarrow> Inl e
               | Inr rows \<Rightarrow>
                   (case epoch_loop body r step epoch_samples rest of
                      Inl e \<Rightarrow> Inl e
                    | Inr others \<Rightarrow> Inr (rows @ others))))"

definition epoch_rows ::
  "(int \<Rightarrow> string \<Rightarrow> real list \<Rightarrow> py_error + 'r) \<Rightarrow> raw \<Rightarrow> real \<Rightarrow> real \<Rightarrow> py_error + 'r list"
  where
  \<comment> \<open>The epoching of \<open>extract_all_features\<close>, with the body of its inner loop as a
      parameter: the list \<open>all_features\<close>.\<close>
  "epoch_rows body r epoch_length overlap =
     (let sfreq = info_sfreq r;
          step = py_int (fmul (fmul epoch_length (fsub 1 overlap)) sfreq);
          epoch_samples = py_int (fmul epoch_length sfreq)
      in if step = 0 then Inl ZeroDivisionError
         else
           (let n_epochs = (int (n_times r) - epoch_samples) div step + 1
            in epoch_loop body r step epoch_samples (map int [0 ..< nat n_epochs])))"

definition extract_all_features ::
  "FeatureExtractor \<Rightarrow> welch_fn \<Rightarrow> raw \<Rightarrow> real \<Rightarrow> real \<Rightarrow> py_error + DataFrame" where
  "extract_all_features self welch r epoch_length overlap =
     (case epoch_rows (channel_features self welch (info_sfreq r)) r epoch_length overlap of
        Inl e \<Rightarrow> Inl e
      | Inr all_features \<Rightarrow> Inr (pd_DataFrame all_features))"

section \<open>Bad-channel detection of \<open>app/processing/preprocessing.py\<close>\<close>

text \<open>
  The pipeline object as far as \<open>detect_bad_channels\<close> reads it: the \<open>artifact\<close>
  section of the configuration, a dict of thresholds.
\<close>

record PreprocessingPipeline =
  artifact_config :: "real pydict"

definition pick_types_eeg :: "raw \<Rightarrow> nat list" where
  \<comment> \<open>\<open>mne.pick_types(raw.info, eeg=True, exclude=[])\<close>: the indices of the EEG channels,
      in increasing order.\<close>
  "pick_types_eeg r = filter (\<lambda>i. ch_is_eeg r ! i) [0 ..< length (ch_names r)]"

fun fin_value :: "npfloat \<Rightarrow> real option" where
  "fin_value (Fin x) = Some x"
| "fin_value _ = None"

definition stats_zscore_arr :: "npfloat list \<Rightarrow> npfloat list" where
  \<comment> \<open>\<open>scipy.stats.zscore\<close> on an array that may hold nan: the mean is then nan, and so is
      every score.\<close>
  "stats_zscore_arr vs =
     (case those (map fin_value vs) of
        Some xs \<Rightarrow> stats_zscore xs
      | None \<Rightarrow> map (\<lambda>v. NaN) vs)"

fun flat_kurtosis_loop :: "raw \<Rightarrow> real \<Rightarrow> real \<Rightarrow> nat list \<Rightarrow> string list \<Rightarrow> string list" where
  \<comment> \<open>The first loop over \<open>eeg_picks\<close>; the indices of \<open>pick_types\<close> are in range.\<close>
  "flat_kurtosis_loop r flat_threshold kurtosis_threshold [] bad_channels = bad_channels"
| "flat_kurtosis_loop r flat_threshold kurtosis_threshold (idx # rest) bad_channels =
     (let ch_name = ch_names r ! idx;
          ch_data = get_data_rows r ! idx
      in if np_lt (np_std ch_data) flat_threshold
         then flat_kurtosis_loop r flat_threshold kurtosis_threshold rest (bad_channels @ [ch_name])
         else if np_gt (stats_kurtosis ch_data) kurtosis_threshold
         then flat_kurtosis_loop r flat_threshold kurtosis_threshold rest (bad_channels @ [ch_name])
         else flat_kurtosis_loop r flat_threshold kurtosis_threshold rest bad_channels)"

fun zscore_loop :: "raw \<Rightarrow> real \<Rightarrow> npfloat list \<Rightarrow> (nat \<times> nat) list \<Rightarrow> string list \<Rightarrow> string list" where
  \<comment> \<open>\<open>for i, idx in enumerate(eeg_picks)\<close>\<close>
  "zscore_loop r zscore_threshold z_scores [] bad_channels = bad_channels"
| "zscore_loop r zscore_threshold z_scores ((i, idx) # rest) bad_channels =
     (if np_gt (np_abs (z_scores ! i)) zscore_threshold
      then (let ch_name = ch_names r ! idx
            in if ch_name \<notin> set bad_channels
               then zscore_loop r zscore_threshold z_scores rest (bad_channels @ [ch_name])
               else zscore_loop r zscore_threshold z_scores rest bad_channels)
      else zscore_loop r zscore_threshold z_scores rest bad_channels)"

definition detect_bad_channels :: "PreprocessingPipeline \<Rightarrow> raw \<Rightarrow> raw \<times> string list" where
  \<comment> \<open>\<open>list(set(...))\<close> orders the marked channels arbitrarily; \<open>remdups\<close> stands for it.\<close>
  "detect_bad_channels self r =
     (let data = get_data_rows r;
          flat_threshold = dict_get (artifact_config self) ''flat_threshold'' (1 / 10 ^ 6);
          zscore_threshold = dict_get (artifact_config self) ''high_variance_zscore'' 5;
          kurtosis_threshold = dict_get (artifact_config self) ''kurtosis_threshold'' 10;
          eeg_picks = pick_types_eeg r;
          bad_channels = flat_kurtosis_loop r flat_threshold kurtosis_threshold eeg_picks [];
          bad_channels =
            (if length eeg_picks > 1
             then (let channel_vars = map (\<lambda>idx. np_var (data ! idx)) eeg_picks;
                       z_scores = stats_zscore_arr channel_vars
                   in zscore_loop r zscore_threshold z_scores
                        (zip [0 ..< length eeg_picks] eeg_picks) bad_channels)
             else bad_channels)
      in (r\<lparr>info_bads := remdups (info_bads r @ bad_channels)\<rparr>, bad_channels))"

section \<open>The ring buffer of \<open>app/tasks/realtime.py\<close>\<close>

text \<open>
  \<open>RealtimeBuffer\<close> keeps an array of shape (channels, samples) under one Redis key.
  Every operation of the class works along the time axis only, so the array is modelled
  as the list of its time samples (each element one column over the channels), and the
  Redis key as an optional value: \<open>None\<close> when the key is absent.  The expiry of the key
  and the byte encoding are not modelled.
\<close>

record 'a RealtimeBuffer =
  sfreq :: int
  buffer_seconds :: int
  store :: "'a list option"

definition buffer_size :: "'a RealtimeBuffer \<Rightarrow> int" where
  "buffer_size b = sfreq b * buffer_seconds b"

definition get_buffer :: "'a RealtimeBuffer \<Rightarrow> 'a list option" where
  "get_buffer b = store b"

definition set_buffer :: "'a RealtimeBuffer \<Rightarrow> 'a list \<Rightarrow> 'a RealtimeBuffer" where
  "set_buffer b d = b\<lparr>store := Some d\<rparr>"

definition clear :: "'a RealtimeBuffer \<Rightarrow> 'a RealtimeBuffer" where
  "clear b = b\<lparr>store := None\<rparr>"

definition append_chunk :: "'a RealtimeBuffer \<Rightarrow> 'a list \<Rightarrow> 'a RealtimeBuffer" where
  \<comment> \<open>\<open>RealtimeBuffer.append\<close>\<close>
  "append_chunk b data =
     (let combined =
        (case get_buffer b of
           Some current \<Rightarrow>
             (let combined = current @ data
              in if int (length combined) > buffer_size b
                 then py_slice_from combined (- buffer_size b) else combined)
         | None \<Rightarrow>
             (if int (length data) > buffer_size b
              then py_slice_from data (- buffer_size b) else data))
      in set_buffer b combined)"

definition get_data :: "'a RealtimeBuffer \<Rightarrow> real option \<Rightarrow> 'a list option" where
  \<comment> \<open>\<open>RealtimeBuffer.get_data\<close>; the outer \<open>None\<close> is Python's \<open>None\<close>.  The product is
      of a float and an int, which is converted to a float.\<close>
  "get_data b duration_sec =
     (case get_buffer b of
        None \<Rightarrow> None
      | Some data \<Rightarrow>
          (case duration_sec of
             Some d \<Rightarrow> (let n_samples = py_int (fmul d (fl (real_of_int (sfreq b))))
                        in Some (py_slice_from data (- n_samples)))
           | None \<Rightarrow> Some data))"

definition contents :: "'a RealtimeBuffer \<Rightarrow> 'a list" where
  \<comment> \<open>The samples held: none when the key is absent.\<close>
  "contents b = (case store b of None \<Rightarrow> [] | Some c \<Rightarrow> c)"

subsection \<open>Slices from the end\<close>

lemma py_slice_from_neg:
  "0 < k \<Longrightarrow> py_slice_from xs (- k) = trailing (nat k) xs"
  by (simp add: py_slice_from_def py_norm_def trailing_def nat_diff_distrib')

lemma py_slice_from_zero: "py_slice_from xs 0 = xs"
  by (simp add: py_slice_from_def py_norm_def)

lemma length_trailing: "length (trailing k xs) = min k (length xs)"
  by (simp add: trailing_def)

lemma trailing_all: "length xs \<le> k \<Longrightarrow> trailing k xs = xs"
  by (simp add: trailing_def)

subsection \<open>Appending with a positive capacity\<close>

lemma append_chunk_trailing:
  assumes "0 < buffer_size b"
  shows "store (append_chunk b data) =
           Some (trailing (min (length (contents b) + length data) (nat (buffer_size b)))
                   (contents b @ data))"
proof (cases "store b")
  case None
  then show ?thesis using assms
    by (auto simp: append_chunk_def get_buffer_def set_buffer_def contents_def Let_def
        py_slice_from_neg trailing_def)
next
  case (Some cur)
  then show ?thesis using assms
    by (auto simp: append_chunk_def get_buffer_def set_buffer_def contents_def Let_def
        py_slice_from_neg trailing_def)
qed

lemma append_chunk_length:
  assumes "0 < buffer_size b"
  shows "length (contents (append_chunk b data)) \<le> nat (buffer_size b)"
  using append_chunk_trailing [OF assms, of data]
  by (simp add: contents_def length_trailing)

lemma append_chunk_zero_capacity:
  assumes "buffer_size b = 0" and "store b = Some current"
  shows "store (append_chunk b data) = Some (current @ data)"
  using assms
  by (simp add: append_chunk_def get_buffer_def set_buffer_def Let_def py_slice_from_zero)

lemma get_data_trailing:
  assumes "store b = Some xs" and "0 < py_int (fmul d (fl (real_of_int (sfreq b))))"
  shows "get_data b (Some d) = Some (trailing (nat (py_int (fmul d (fl (real_of_int (sfreq b)))))) xs)"
  using assms by (simp add: get_data_def get_buffer_def Let_def py_slice_from_neg)

lemma get_data_absent: "store b = None \<Longrightarrow> get_data b d = None"
  by (simp add: get_data_def get_buffer_def)

lemma fl_3_1000: "fl (3 / 1000) = 3458764513820541 / 1152921504606846976"
  by (subst fl_at [of "-9"]) (simp_all add: pow2_def round_half_even_def)

lemma fmul_3_1000_250: "fmul (fl (3 / 1000)) (fl 250) = 3 / 4"
  unfolding fmul_def fl_3_1000 fl_250
  by (subst fl_at [of "-1"]) (simp_all add: pow2_def round_half_even_def)

text \<open>
  Claim C6.  Reading with a duration is meant to return the trailing
  \<open>duration * sfreq\<close> samples.  At 250 Hz a duration of 3 ms (the double written
  \<open>0.003\<close>) is less than one sample, so \<open>int(duration_sec * sfreq)\<close> is 0 and the slice
  \<open>data[:, -0:]\<close> is the whole array: a buffer holding five samples returns all five
  instead of none.
\<close>

theorem get_data_short_duration_returns_everything:
  "get_data \<lparr>sfreq = 250, buffer_seconds = 30, store = Some [1, 2, 3, 4, 5 :: nat]\<rparr>
     (Some (fl (3 / 1000))) = Some [1, 2, 3, 4, 5]
   \<and> py_int (fmul (fl (3 / 1000)) (fl (real_of_int 250))) = 0
   \<and> trailing 0 [1, 2, 3, 4, 5 :: nat] = []"
  by (simp add: get_data_def get_buffer_def fmul_3_1000_250 py_int_def py_slice_from_def
      py_norm_def trailing_def)

section \<open>Epoching\<close>

lemma py_slice_within:
  assumes "0 \<le> s" "0 \<le> e" "s + e \<le> int (length xs)"
  shows "py_slice xs s (s + e) = take (nat e) (drop (nat s) xs)"
  using assms by (auto simp: py_slice_def py_norm_def min_def nat_add_distrib)

lemma channel_loop_indexed:
  assumes "\<forall>(i, c) \<in> set ics. i < length ed"
  shows "channel_loop (\<lambda>k c d. Inr (f k c d)) k ed ics
           = Inr (map (\<lambda>(i, c). f k c (ed ! i)) ics)"
  using assms by (induction ics) auto

lemma channel_loop_total:
  assumes "length ed = length ns"
  shows "channel_loop (\<lambda>k c d. Inr (f k c d)) k ed (zip [0 ..< length ns] ns)
           = Inr (map (\<lambda>(c, d). f k c d) (zip ns ed))"
proof -
  have "\<forall>(i, c) \<in> set (zip [0 ..< length ns] ns). i < length ed"
    using assms by (auto dest: set_zip_leftD)
  from channel_loop_indexed [OF this]
  have "channel_loop (\<lambda>k c d. Inr (f k c d)) k ed (zip [0 ..< length ns] ns)
           = Inr (map (\<lambda>(i, c). f k c (ed ! i)) (zip [0 ..< length ns] ns))" .
  moreover have "map (\<lambda>(i, c). f k c (ed ! i)) (zip [0 ..< length ns] ns)
           = map (\<lambda>(c, d). f k c d) (zip ns ed)"
    using assms by (intro nth_equalityI) auto
  ultimately show ?thesis by simp
qed

lemma epoch_loop_total:
  assumes "length (get_data_rows r) = length (ch_names r)"
    and "\<forall>k \<in> set ks. k * step + es \<le> int (n_times r)"
  shows "epoch_loop (\<lambda>k c d. Inr (f k c d)) r step es ks
           = Inr (concat (map (\<lambda>k. map (\<lambda>(c, row). f k c (py_slice row (k * step) (k * step + es)))
                                     (zip (ch_names r) (get_data_rows r))) ks))"
  using assms(2)
proof (induction ks)
  case Nil
  then show ?case by simp
next
  case (Cons k ks)
  have cl: "channel_loop (\<lambda>k c d. Inr (f k c d)) k ed (zip [0 ..< length (ch_names r)] (ch_names r))
           = Inr (map (\<lambda>(c, d). f k c d) (zip (ch_names r) ed))"
    if "length ed = length (ch_names r)" for ed
    using channel_loop_total [of ed "ch_names r" f k] that by simp
  have m: "map (\<lambda>(c, d). f k c d) (zip (ch_names r) (map (\<lambda>row. py_slice row s e) (get_data_rows r)))
      = map (\<lambda>(c, row). f k c (py_slice row s e)) (zip (ch_names r) (get_data_rows r))" for s e
    by (simp add: zip_map2 case_prod_unfold)
  from Cons show ?case
    by (simp add: Let_def cl assms(1) m)
qed

lemma epoch_rows_zero_step:
  "py_int (fmul (fmul L (fsub 1 ovl)) (info_sfreq r)) = 0
     \<Longrightarrow> epoch_rows body r L ovl = Inl ZeroDivisionError"
  by (simp add: epoch_rows_def)

lemma py_int_nonneg: "0 \<le> x \<Longrightarrow> py_int x = \<lfloor>x\<rfloor>"
  by (simp add: py_int_def)

lemma py_int_ge_one: "1 \<le> py_int x \<Longrightarrow> 1 \<le> x"
  by (simp add: py_int_def split: if_splits)

text \<open>With an overlap below 1 and a positive step, the epochs have no negative length.\<close>

lemma epoch_samples_nonneg:
  assumes ovl: "ovl < 1" and step: "1 \<le> py_int (fmul (fmul L (fsub 1 ovl)) s)"
  shows "0 \<le> py_int (fmul L s)"
proof -
  define a where "a = fsub 1 ovl"
  define b where "b = fmul L a"
  have c: "1 \<le> fl (b * s)"
    using py_int_ge_one [OF step] by (simp add: a_def b_def fmul_def)
  have a0: "0 \<le> a" using ovl fl_nonneg [of "1 - ovl"] by (simp add: a_def fsub_def)
  have bs: "0 < b * s"
  proof (rule ccontr)
    assume "\<not> 0 < b * s"
    then have "fl (b * s) \<le> 0" by (intro fl_nonpos) simp
    with c show False by linarith
  qed
  have "0 \<le> L * s"
  proof (cases "0 < s")
    case True
    with bs have "0 < b" by (simp add: zero_less_mult_iff)
    have "0 < L * a"
    proof (rule ccontr)
      assume "\<not> 0 < L * a"
      then have "fl (L * a) \<le> 0" by (intro fl_nonpos) simp
      with \<open>0 < b\<close> show False by (simp add: b_def fmul_def)
    qed
    with a0 have "0 < L" by (simp add: zero_less_mult_iff)
    with True show ?thesis by simp
  next
    case False
    with bs have s: "s < 0" and "b < 0" by (auto simp: zero_less_mult_iff)
    have "L * a < 0"
    proof (rule ccontr)
      assume "\<not> L * a < 0"
      then have "0 \<le> fl (L * a)" by (intro fl_nonneg) simp
      with \<open>b < 0\<close> show False by (simp add: b_def fmul_def)
    qed
    with a0 have "L < 0" by (simp add: mult_less_0_iff)
    with s show ?thesis by (simp add: zero_le_mult_iff)
  qed
  then have "0 \<le> fl (L * s)" by (rule fl_nonneg)
  then show ?thesis by (simp add: py_int_def fmul_def)
qed

text \<open>
  At the default epoch length of 2 s and the default overlap of 0.5 no product is
  rounded (the sample rate being a double), and the step and the length of an epoch are
  the floors of the exact products \<open>L * (1 - o) * sfreq\<close> and \<open>L * sfreq\<close>.
\<close>

lemma default_step_and_length:
  assumes "fl s = s" and "0 \<le> s"
  shows "py_int (fmul (fmul 2 (fsub 1 (1 / 2))) s) = \<lfloor>2 * (1 - 1 / 2) * s\<rfloor>
       \<and> py_int (fmul 2 s) = \<lfloor>2 * s\<rfloor>"
  using assms by (simp add: fmul_def fsub_def fl_half fl_one fl_double py_int_def)

text \<open>
  The loop of \<open>extract_all_features\<close>, for any body that does not raise: with \<open>step\<close>
  and \<open>es\<close> the two integers that the code computes.
\<close>

lemma epoch_rows_windows:
  fixes r :: raw and L ovl :: real and f :: "int \<Rightarrow> string \<Rightarrow> real list \<Rightarrow> 'r"
  defines "step \<equiv> py_int (fmul (fmul L (fsub 1 ovl)) (info_sfreq r))"
    and "es \<equiv> py_int (fmul L (info_sfreq r))"
    and "n \<equiv> int (n_times r)"
  defines "N \<equiv> (if n < es then 0 else nat ((n - es) div step + 1))"
  assumes wf: "wf_raw r" and step1: "1 \<le> step" and es0: "0 \<le> es"
  shows "epoch_rows (\<lambda>k c d. Inr (f k c d)) r L ovl
           = Inr (concat (map (\<lambda>k. map (\<lambda>(c, row). f (int k) c (take (nat es) (drop (k * nat step) row)))
                                      (zip (ch_names r) (get_data_rows r))) [0 ..< N]))
         \<and> (\<forall>k < N. \<forall>row \<in> set (get_data_rows r).
               length (take (nat es) (drop (k * nat step) row)) = nat es)
         \<and> (\<forall>k < N. int k * step + es \<le> n)
         \<and> n < int N * step + es"
proof -
  have pstep: "py_int (fmul (fmul L (fsub 1 ovl)) (info_sfreq r)) = step"
    by (simp add: step_def)
  have pes: "py_int (fmul L (info_sfreq r)) = es"
    by (simp add: es_def)
  have Neq: "nat ((n - es) div step + 1) = N"
  proof (cases "n < es")
    case True
    then have "(n - es) div step < 0" using step1 by (simp add: div_neg_pos_less0)
    then show ?thesis using True by (simp add: N_def)
  next
    case False
    then show ?thesis by (simp add: N_def)
  qed
  have bound: "int k * step + es \<le> n" if "k < N" for k
  proof -
    from that have nes: "\<not> n < es" by (auto simp: N_def split: if_splits)
    then have "0 \<le> (n - es) div step" using step1 by (simp add: pos_imp_zdiv_nonneg_iff)
    with that have "int k \<le> (n - es) div step" using nes by (simp add: N_def)
    then have "int k * step \<le> ((n - es) div step) * step"
      using step1 by (simp add: mult_right_mono)
    also have "\<dots> \<le> n - es"
    proof -
      have "0 \<le> (n - es) mod step" using step1 by simp
      moreover have "(n - es) div step * step + (n - es) mod step = n - es" by simp
      ultimately show ?thesis by linarith
    qed
    finally show ?thesis by simp
  qed
  have drop_: "n < int N * step + es"
  proof (cases "n < es")
    case True
    then show ?thesis by (simp add: N_def)
  next
    case False
    then have "0 \<le> (n - es) div step" using step1 by (simp add: pos_imp_zdiv_nonneg_iff)
    then have "int N = (n - es) div step + 1" using False by (simp add: N_def)
    moreover have "n - es < ((n - es) div step + 1) * step"
    proof -
      have b: "(n - es) mod step < step" using step1 by simp
      have m: "(n - es) div step * step + (n - es) mod step = n - es" by simp
      have e: "((n - es) div step + 1) * step = (n - es) div step * step + step"
        by (simp add: distrib_right)
      show ?thesis unfolding e using b m by linarith
    qed
    ultimately show ?thesis by simp
  qed
  have len: "length row = n_times r" if "row \<in> set (get_data_rows r)" for row
    using wf that by (simp add: wf_raw_def list_all_iff)
  have lens: "length (take (nat es) (drop (k * nat step) row)) = nat es"
    if "k < N" "row \<in> set (get_data_rows r)" for k row
  proof -
    have "int k * step + es \<le> int (length row)" using bound [OF that(1)] len [OF that(2)] by (simp add: n_def)
    moreover have "int (k * nat step) = int k * step" using step1 by simp
    ultimately have "k * nat step + nat es \<le> length row" using es0 by linarith
    then show ?thesis by simp
  qed
  have all: "\<forall>k \<in> set (map int [0 ..< N]). k * step + es \<le> int (n_times r)"
    using bound by (auto simp: n_def)
  have wlen: "length (get_data_rows r) = length (ch_names r)" using wf by (simp add: wf_raw_def)
  have slice: "py_slice row (int k * step) (int k * step + es) = take (nat es) (drop (k * nat step) row)"
    if "k < N" "row \<in> set (get_data_rows r)" for k row
  proof -
    have "int k * step + es \<le> int (length row)" using bound [OF that(1)] len [OF that(2)] by (simp add: n_def)
    moreover have "0 \<le> int k * step" using step1 by simp
    moreover have "nat (int k * step) = k * nat step" using step1 by (simp add: nat_mult_distrib)
    ultimately show ?thesis using py_slice_within [of "int k * step" es row] es0 by simp
  qed
  have "epoch_rows (\<lambda>k c d. Inr (f k c d)) r L ovl
      = epoch_loop (\<lambda>k c d. Inr (f k c d)) r step es (map int [0 ..< N])"
    using step1 by (simp add: epoch_rows_def Let_def pstep pes Neq n_def [symmetric])
  also have "\<dots> = Inr (concat (map (\<lambda>k. map (\<lambda>(c, row). f k c (py_slice row (k * step) (k * step + es)))
                                     (zip (ch_names r) (get_data_rows r))) (map int [0 ..< N])))"
    by (rule epoch_loop_total [OF wlen all])
  also have "\<dots> = Inr (concat (map (\<lambda>k. map (\<lambda>(c, row). f (int k) c (take (nat es) (drop (k * nat step) row)))
                                      (zip (ch_names r) (get_data_rows r))) [0 ..< N]))"
    using slice by (auto simp: comp_def intro!: arg_cong [where f = concat] dest!: set_zip_rightD)
  finally show ?thesis using lens bound drop_ by blast
qed

text \<open>
  Claim C5 (as amended).  With an overlap fraction below 1 and a step of at least one
  sample, the epochs are the windows of \<open>es\<close> samples that start at the multiples
  \<open>0, step, 2 * step, ...\<close> of the step, where \<open>step = int(L * (1 - overlap) * sfreq)\<close> and
  \<open>es = int(L * sfreq)\<close> are truncated from the products as floats, each operation rounded
  (they are the floors of the exact products at the defaults, see
  \<open>default_step_and_length\<close>, but not always, see the counterexample): the inner loop
  body is run once per epoch and channel, on exactly these samples.  Every window ends
  inside the buffer, the next window would not, and the number of epochs is
  \<open>(n - es) div step + 1\<close> when the buffer holds at least one epoch and 0 otherwise.
  (A step of zero raises ZeroDivisionError, see \<open>epoch_rows_zero_step\<close>.)
\<close>

theorem epoching_windows:
  fixes r :: raw and L ovl :: real and f :: "int \<Rightarrow> string \<Rightarrow> real list \<Rightarrow> 'r"
  defines "step \<equiv> py_int (fmul (fmul L (fsub 1 ovl)) (info_sfreq r))"
    and "es \<equiv> py_int (fmul L (info_sfreq r))"
    and "n \<equiv> int (n_times r)"
  defines "N \<equiv> (if n < es then 0 else nat ((n - es) div step + 1))"
  assumes wf: "wf_raw r" and ovl: "ovl < 1" and pos: "1 \<le> step"
  shows "epoch_rows (\<lambda>k c d. Inr (f k c d)) r L ovl
           = Inr (concat (map (\<lambda>k. map (\<lambda>(c, row). f (int k) c (take (nat es) (drop (k * nat step) row)))
                                      (zip (ch_names r) (get_data_rows r))) [0 ..< N]))
         \<and> (\<forall>k < N. \<forall>row \<in> set (get_data_rows r).
               length (take (nat es) (drop (k * nat step) row)) = nat es)
         \<and> (\<forall>k < N. int k * step + es \<le> n)
         \<and> n < int N * step + es"
proof -
  have es0: "0 \<le> py_int (fmul L (info_sfreq r))"
    using ovl pos unfolding step_def by (rule epoch_samples_nonneg)
  show ?thesis
    unfolding step_def es_def n_def N_def
    using epoch_rows_windows [OF wf pos [unfolded step_def] es0, of f] .
qed

text \<open>A recording of one channel and seven samples at 2 Hz.\<close>

definition demo_raw :: raw where
  "demo_raw = \<lparr>info_sfreq = 2, ch_names = [''Cz''], ch_is_eeg = [True], n_times = 7,
      get_data_rows = [[1, 2, 3, 4, 5, 6, 7]], info_bads = []\<rparr>"

lemma demo_raw_step:
  "py_int (fmul (fmul 2 (fsub 1 (1 / 2))) (info_sfreq demo_raw)) = 2"
  "py_int (fmul 2 (info_sfreq demo_raw)) = 4"
  by (simp_all add: fmul_def fsub_def fl_half fl_one fl_two fl_four demo_raw_def py_int_def)

theorem epoching_windows_witness:
  "epoch_rows (\<lambda>k c d. Inr (k, c, d)) demo_raw 2 (1 / 2)
     = Inr [(0, ''Cz'', [1, 2, 3, 4]), (1, ''Cz'', [3, 4, 5, 6])]"
proof -
  have wf: "wf_raw demo_raw" by (simp add: wf_raw_def demo_raw_def)
  have a: "(1 / 2 :: real) < 1" by simp
  have b: "1 \<le> py_int (fmul (fmul 2 (fsub 1 (1 / 2))) (info_sfreq demo_raw))"
    by (simp add: demo_raw_step)
  show ?thesis
    using epoching_windows [OF wf a b, of "\<lambda>k c d. (k, c, d)"]
    by (simp add: demo_raw_step) (simp add: demo_raw_def upt_rec)
qed

text \<open>
  Two overlaps that are not doubles, 0.9 and 0.2, on a recording of one channel at
  250 Hz whose sample \<open>i\<close> has the value \<open>i\<close>.
\<close>

definition ramp_raw :: "nat \<Rightarrow> raw" where
  "ramp_raw n = \<lparr>info_sfreq = 250, ch_names = [''Cz''], ch_is_eeg = [True], n_times = n,
      get_data_rows = [map real [0 ..< n]], info_bads = []\<rparr>"

lemma two_epochs: "map int [0 ..< 2] = [0, 1]" "map int [0 ..< 1] = [0]"
  by (simp_all add: upt_rec)

lemma fl_nine_tenths: "fl (9 / 10) = 8106479329266893 / 9007199254740992"
  by (subst fl_at [of "-1"]) (simp_all add: pow2_def round_half_even_def)

lemma fsub_nine_tenths: "fsub 1 (fl (9 / 10)) = 900719925474099 / 9007199254740992"
  unfolding fsub_def fl_nine_tenths
  by (subst fl_at [of "-4"]) (simp_all add: pow2_def round_half_even_def)

lemma step_nine_tenths: "py_int (fmul (fmul 2 (fsub 1 (fl (9 / 10)))) 250) = 49"
proof -
  have a: "fmul 2 (900719925474099 / 9007199254740992) = 900719925474099 / 4503599627370496"
    unfolding fmul_def by (subst fl_at [of "-3"]) (simp_all add: pow2_def round_half_even_def)
  have b: "fmul (900719925474099 / 4503599627370496) 250 = 3518437208883199 / 70368744177664"
    unfolding fmul_def by (subst fl_at [of 5]) (simp_all add: pow2_def round_half_even_def)
  show ?thesis by (simp add: fsub_nine_tenths a b py_int_def)
qed

lemma fl_fifth: "fl (1 / 5) = 3602879701896397 / 18014398509481984"
  by (subst fl_at [of "-3"]) (simp_all add: pow2_def round_half_even_def)

lemma fsub_fifth: "fsub 1 (fl (1 / 5)) = 3602879701896397 / 4503599627370496"
  unfolding fsub_def fl_fifth
  by (subst fl_at [of "-1"]) (simp_all add: pow2_def round_half_even_def)

lemma step_fifth: "py_int (fmul (fmul 1 (fsub 1 (fl (1 / 5)))) 250) = 200"
proof -
  have a: "fmul 1 (3602879701896397 / 4503599627370496) = 3602879701896397 / 4503599627370496"
    unfolding fmul_def by (subst fl_at [of "-1"]) (simp_all add: pow2_def round_half_even_def)
  have b: "fmul (3602879701896397 / 4503599627370496) 250 = 200"
    unfolding fmul_def by (subst fl_at [of 7]) (simp_all add: pow2_def round_half_even_def)
  show ?thesis by (simp add: fsub_fifth a b py_int_def)
qed

lemma epoch_samples_250: "py_int (fmul 2 250) = 500" "py_int (fmul 1 250) = 250"
  by (simp_all add: fmul_def fl_500 fl_250 py_int_def)

text \<open>
  The step is not always the floor of the exact product.  With \<open>L = 2.0\<close> and
  \<open>overlap = 0.9\<close> at 250 Hz, \<open>1 - 0.9\<close> is the double \<open>0.09999999999999998\<close> and the code
  computes a step of 49 samples where \<open>floor(2 * (1 - 0.9) * 250) = 50\<close>: a recording of
  549 samples has two epochs, starting at the samples 0 and 49, not one.  With \<open>L = 1.0\<close>
  and \<open>overlap = 0.2\<close>, \<open>1 - 0.2\<close> is rounded up to the double \<open>0.8\<close> and the code computes
  a step of 200 samples, where the exact product of the three doubles has the floor 199:
  a recording of 449 samples has one epoch, not two.  (The loop body records the index
  of the epoch, its first sample and its length.)
\<close>

theorem epoching_step_counterexample:
  "py_int (fmul (fmul 2 (fsub 1 (fl (9 / 10)))) 250) = 49
   \<and> \<lfloor>2 * (1 - 9 / 10) * 250 :: real\<rfloor> = 50
   \<and> epoch_rows (\<lambda>k c d. Inr (k, hd d, length d)) (ramp_raw 549) 2 (fl (9 / 10))
       = Inr [(0, 0, 500), (1, 49, 500)]
   \<and> (549 - 500) div 50 + 1 = (1 :: int)
   \<and> py_int (fmul (fmul 1 (fsub 1 (fl (1 / 5)))) 250) = 200
   \<and> \<lfloor>1 * (1 - fl (1 / 5)) * 250\<rfloor> = 199
   \<and> epoch_rows (\<lambda>k c d. Inr (k, hd d, length d)) (ramp_raw 449) 1 (fl (1 / 5))
       = Inr [(0, 0, 250)]
   \<and> (449 - 250) div 199 + 1 = (2 :: int)"
proof -
  have a: "epoch_rows (\<lambda>k c d. Inr (k, hd d, length d)) (ramp_raw 549) 2 (fl (9 / 10))
       = Inr [(0, 0, 500), (1, 49, 500)]"
    by (simp add: epoch_rows_def ramp_raw_def step_nine_tenths epoch_samples_250 Let_def
        two_epochs py_slice_def py_norm_def take_map drop_map hd_map take_upt hd_upt)
  have b: "epoch_rows (\<lambda>k c d. Inr (k, hd d, length d)) (ramp_raw 449) 1 (fl (1 / 5))
       = Inr [(0, 0, 250)]"
    by (simp add: epoch_rows_def ramp_raw_def step_fifth epoch_samples_250 Let_def
        two_epochs py_slice_def py_norm_def take_map drop_map hd_map take_upt hd_upt)
  have c: "\<lfloor>1 * (1 - fl (1 / 5)) * 250\<rfloor> = 199" by (simp add: fl_fifth)
  have d: "\<lfloor>2 * (1 - 9 / 10) * 250 :: real\<rfloor> = 50" by simp
  show ?thesis
    by (simp only: a b c d step_nine_tenths step_fifth) simp
qed

section \<open>Sample entropy: the two cases\<close>

text \<open>The pairs of a list, each element with every later one.\<close>

fun pairs_after :: "'a list \<Rightarrow> ('a \<times> 'a) list" where
  "pairs_after [] = []"
| "pairs_after (t # ts) = map (Pair t) ts @ pairs_after ts"

text \<open>Two templates match when their largest componentwise distance is below \<open>r\<close>.\<close>

definition templates_match :: "npfloat \<Rightarrow> real list \<times> real list \<Rightarrow> bool" where
  "templates_match r p = np_gt r (Max (set (map (\<lambda>(x, y). \<bar>x - y\<bar>) (zip (fst p) (snd p)))))"

lemma inner_loop_count:
  assumes "t \<noteq> []"
  shows "inner_loop t us r c = Inr (c + 2 * length (filter (templates_match r) (map (Pair t) us)))"
  using assms by (induction us arbitrary: c) (auto simp: max_abs_diff_def templates_match_def)

lemma outer_loop_count:
  assumes "\<forall>t \<in> set ts. t \<noteq> []"
  shows "outer_loop ts r c = Inr (c + 2 * length (filter (templates_match r) (pairs_after ts)))"
  using assms by (induction ts arbitrary: c) (auto simp: inner_loop_count)

lemma template_length:
  assumes "i + len \<le> length data"
  shows "length (py_slice data (int i) (int i + int len)) = len"
  using assms by (auto simp: py_slice_def py_norm_def)

lemma count_matches_count:
  assumes "0 < len"
  shows "count_matches data r len =
           Inr (2 * length (filter (templates_match r)
                  (pairs_after (map (\<lambda>i. py_slice data (int i) (int i + int len))
                                  [0 ..< length data - len]))))"
proof -
  have "\<forall>t \<in> set (map (\<lambda>i. py_slice data (int i) (int i + int len)) [0 ..< length data - len]). t \<noteq> []"
  proof
    fix t assume "t \<in> set (map (\<lambda>i. py_slice data (int i) (int i + int len)) [0 ..< length data - len])"
    then obtain i where i: "i < length data - len" and t: "t = py_slice data (int i) (int i + int len)"
      by auto
    from i have "i + len \<le> length data" by simp
    from template_length [OF this] t assms show "t \<noteq> []" by auto
  qed
  from outer_loop_count [OF this, of r 0] show ?thesis
    by (simp add: count_matches_def Let_def)
qed



text \<open>
  An embedding dimension of 0 makes every template empty, and the maximum over an empty
  array raises.
\<close>

lemma zero_dimension_raises:
  "compute_sample_entropy self [1, 2] (Some 0) (Some (Fin 1)) = Inl ValueError"
  by (simp add: compute_sample_entropy_def count_matches_def Let_def py_slice_def py_norm_def
      upt_rec max_abs_diff_def)

section \<open>Band powers and relative band powers\<close>

lemma trapz_chain:
  assumes "length ys1 = length xs1"
  shows "trapz (ys1 @ y # ys2) (xs1 @ x # xs2)
           = trapz (ys1 @ [y]) (xs1 @ [x]) + trapz (y # ys2) (x # xs2)"
  using assms
proof (induction ys1 xs1 rule: list_induct2)
  case Nil
  then show ?case by simp
next
  case (Cons a as b bs)
  then show ?case by (cases as; cases bs) simp_all
qed

text \<open>The points of the spectrum that a band's mask selects, as (power, frequency) pairs.\<close>

definition band_points :: "real list \<Rightarrow> real list \<Rightarrow> real \<Rightarrow> real \<Rightarrow> (real \<times> real) list" where
  "band_points freqs psd lo hi = filter (\<lambda>(p, f). lo \<le> f \<and> f \<le> hi) (zip psd freqs)"

lemma band_integral_points:
  assumes "length psd = length freqs"
  shows "band_integral freqs psd lo hi
           = trapz (map fst (band_points freqs psd lo hi)) (map snd (band_points freqs psd lo hi))"
proof -
  have a: "mask_select psd (map (\<lambda>f. lo \<le> f \<and> f \<le> hi) freqs)
             = map fst (band_points freqs psd lo hi)"
    using assms
    by (induction psd freqs rule: list_induct2) (auto simp: mask_select_def band_points_def)
  have b: "mask_select freqs (map (\<lambda>f. lo \<le> f \<and> f \<le> hi) freqs)
             = map snd (band_points freqs psd lo hi)"
    using assms
    by (induction psd freqs rule: list_induct2) (auto simp: mask_select_def band_points_def)
  show ?thesis by (simp add: band_integral_def Let_def a b)
qed

lemma band_integral_split:
  assumes len: "length psd = length freqs"
    and srt: "sorted_wrt (<) freqs"
    and e: "e \<in> set freqs" and ae: "a \<le> e" and eb: "e \<le> b"
  shows "band_integral freqs psd a e + band_integral freqs psd e b = band_integral freqs psd a b"
proof -
  from e len have "e \<in> snd ` set (zip psd freqs)"
    by (metis set_zip_rightD in_set_impl_in_set_zip2 image_eqI snd_conv)
  then obtain v where "(v, e) \<in> set (zip psd freqs)" by auto
  then obtain L R where z: "zip psd freqs = L @ (v, e) # R" by (meson split_list)
  have "map snd (zip psd freqs) = freqs" using len by simp
  with srt z have s: "sorted_wrt (<) (map snd L @ e # map snd R)" by (metis list.simps(9) map_append snd_conv)
  have L: "\<forall>(p, f) \<in> set L. f < e" using s by (auto simp: sorted_wrt_append)
  have R: "\<forall>(p, f) \<in> set R. e < f" using s by (auto simp: sorted_wrt_append)
  have Lab: "filter (\<lambda>(p, f). a \<le> f \<and> f \<le> e) L = filter (\<lambda>(p, f). a \<le> f \<and> f \<le> b) L"
    using L eb by (intro filter_cong) auto
  have Leb: "filter (\<lambda>(p, f). e \<le> f \<and> f \<le> b) L = []"
    using L by (auto simp: filter_empty_conv)
  have Rab: "filter (\<lambda>(p, f). e \<le> f \<and> f \<le> b) R = filter (\<lambda>(p, f). a \<le> f \<and> f \<le> b) R"
    using R ae by (intro filter_cong) auto
  have Rae: "filter (\<lambda>(p, f). a \<le> f \<and> f \<le> e) R = []"
    using R by (auto simp: filter_empty_conv)
  let ?X = "filter (\<lambda>(p, f). a \<le> f \<and> f \<le> b) L"
  let ?Y = "filter (\<lambda>(p, f). a \<le> f \<and> f \<le> b) R"
  have p1: "band_points freqs psd a e = ?X @ [(v, e)]"
    using ae by (simp add: band_points_def z Lab Rae)
  have p2: "band_points freqs psd e b = (v, e) # ?Y"
    using eb by (simp add: band_points_def z Leb Rab)
  have p3: "band_points freqs psd a b = ?X @ (v, e) # ?Y"
    using ae eb by (simp add: band_points_def z)
  show ?thesis
    using trapz_chain [of "map fst ?X" "map snd ?X" v "map fst ?Y" e "map snd ?Y"]
    by (simp add: band_integral_points [OF len] p1 p2 p3)
qed

lemma band_integral_above:
  assumes len: "length psd = length freqs"
    and above: "\<forall>f \<in> set freqs. f < e" and ae: "a \<le> e" and eb: "e \<le> b"
  shows "band_integral freqs psd a e + band_integral freqs psd e b = band_integral freqs psd a b"
proof -
  have 1: "band_points freqs psd e b = []"
    using above by (auto simp: band_points_def filter_empty_conv dest!: set_zip_rightD)
  have 2: "band_points freqs psd a e = band_points freqs psd a b"
    unfolding band_points_def using above eb
    by (intro filter_cong) (auto dest!: set_zip_rightD)
  show ?thesis by (simp add: band_integral_points [OF len] 1 2)
qed

text \<open>
  The inner edges of the default bands: each is a point of the frequency grid or lies
  above all of it (beyond the Nyquist frequency).
\<close>

definition edges_on_grid :: "real list \<Rightarrow> bool" where
  "edges_on_grid freqs =
     list_all (\<lambda>e. e \<in> set freqs \<or> list_all (\<lambda>f. f < e) freqs) [4, 8, 12, 30]"

lemma band_integral_edge:
  assumes "length psd = length freqs" "sorted_wrt (<) freqs"
    and "e \<in> set freqs \<or> list_all (\<lambda>f. f < e) freqs" and "a \<le> e" "e \<le> b"
  shows "band_integral freqs psd a e + band_integral freqs psd e b = band_integral freqs psd a b"
  using assms band_integral_split [of psd freqs e a b] band_integral_above [of psd freqs e a b]
  by (auto simp: list_all_iff)

lemma default_bands_add_up:
  assumes len: "length psd = length freqs" and srt: "sorted_wrt (<) freqs"
    and grid: "edges_on_grid freqs"
  shows "band_integral freqs psd 1 4 + band_integral freqs psd 4 8 + band_integral freqs psd 8 12
           + band_integral freqs psd 12 30 + band_integral freqs psd 30 45
         = band_integral freqs psd 1 45"
proof -
  have e4: "4 \<in> set freqs \<or> list_all (\<lambda>f. f < 4) freqs"
    and e8: "8 \<in> set freqs \<or> list_all (\<lambda>f. f < 8) freqs"
    and e12: "12 \<in> set freqs \<or> list_all (\<lambda>f. f < 12) freqs"
    and e30: "30 \<in> set freqs \<or> list_all (\<lambda>f. f < 30) freqs"
    using grid by (simp_all add: edges_on_grid_def)
  have "band_integral freqs psd 1 4 + band_integral freqs psd 4 45 = band_integral freqs psd 1 45"
    by (rule band_integral_edge [OF len srt e4]) simp_all
  moreover have "band_integral freqs psd 4 8 + band_integral freqs psd 8 45 = band_integral freqs psd 4 45"
    by (rule band_integral_edge [OF len srt e8]) simp_all
  moreover have "band_integral freqs psd 8 12 + band_integral freqs psd 12 45 = band_integral freqs psd 8 45"
    by (rule band_integral_edge [OF len srt e12]) simp_all
  moreover have "band_integral freqs psd 12 30 + band_integral freqs psd 30 45 = band_integral freqs psd 12 45"
    by (rule band_integral_edge [OF len srt e30]) simp_all
  ultimately show ?thesis by linarith
qed

lemma compute_band_powers_default:
  assumes "welch data fs (py_int (fmul 2 fs)) (py_int (fmul 2 fs) div 2) = Inr (freqs, psd)"
  shows "compute_band_powers default_extractor welch data fs =
           Inr [(''band_delta'', Fin (band_integral freqs psd 1 4)),
                (''band_theta'', Fin (band_integral freqs psd 4 8)),
                (''band_alpha'', Fin (band_integral freqs psd 8 12)),
                (''band_beta'', Fin (band_integral freqs psd 12 30)),
                (''band_gamma'', Fin (band_integral freqs psd 30 45)),
                (''total_power'', Fin (band_integral freqs psd 1 45))]"
  using assms
  by (simp add: compute_band_powers_def default_extractor_def default_bands_def Let_def
      dict_set_def)

lemma compute_relative_band_powers_default:
  "compute_relative_band_powers default_extractor
     [(''band_delta'', d), (''band_theta'', t), (''band_alpha'', a), (''band_beta'', b),
      (''band_gamma'', g), (''total_power'', tot)]
   = [(''rel_delta'', np_div d tot), (''rel_theta'', np_div t tot),
      (''rel_alpha'', np_div a tot), (''rel_beta'', np_div b tot),
      (''rel_gamma'', np_div g tot)]"
  by (simp add: compute_relative_band_powers_def default_extractor_def default_bands_def Let_def
      dict_set_def dict_get_def)

text \<open>
  Claim C2 (as amended).  With the default bands, on a strictly increasing frequency grid
  that contains every inner band edge below its top (so with the default resolution of
  0.5 Hz), and with a total power that is not zero, the five relative band powers are
  finite and sum to exactly 1 in real arithmetic.
\<close>

theorem relative_powers_sum_to_one:
  assumes w: "welch data fs (py_int (fmul 2 fs)) (py_int (fmul 2 fs) div 2) = Inr (freqs, psd)"
    and len: "length psd = length freqs" and srt: "sorted_wrt (<) freqs"
    and grid: "edges_on_grid freqs"
    and nz: "band_integral freqs psd 1 45 \<noteq> 0"
  shows "\<exists>bp d t a b g.
           compute_band_powers default_extractor welch data fs = Inr bp
         \<and> map_of bp ''total_power'' = Some (Fin (band_integral freqs psd 1 45))
         \<and> compute_relative_band_powers default_extractor bp
             = [(''rel_delta'', Fin d), (''rel_theta'', Fin t), (''rel_alpha'', Fin a),
                (''rel_beta'', Fin b), (''rel_gamma'', Fin g)]
         \<and> d + t + a + b + g = 1"
proof -
  let ?T = "band_integral freqs psd 1 45"
  have "band_integral freqs psd 1 4 / ?T + band_integral freqs psd 4 8 / ?T
          + band_integral freqs psd 8 12 / ?T + band_integral freqs psd 12 30 / ?T
          + band_integral freqs psd 30 45 / ?T = ?T / ?T"
    by (simp only: add_divide_distrib [symmetric] default_bands_add_up [OF len srt grid])
  also have "\<dots> = 1" using nz by simp
  finally have sum: "band_integral freqs psd 1 4 / ?T + band_integral freqs psd 4 8 / ?T
          + band_integral freqs psd 8 12 / ?T + band_integral freqs psd 12 30 / ?T
          + band_integral freqs psd 30 45 / ?T = 1" .
  have bp: "compute_band_powers default_extractor welch data fs =
           Inr [(''band_delta'', Fin (band_integral freqs psd 1 4)),
                (''band_theta'', Fin (band_integral freqs psd 4 8)),
                (''band_alpha'', Fin (band_integral freqs psd 8 12)),
                (''band_beta'', Fin (band_integral freqs psd 12 30)),
                (''band_gamma'', Fin (band_integral freqs psd 30 45)),
                (''total_power'', Fin ?T)]"
    using compute_band_powers_default [of welch data fs freqs psd, OF w] .
  have rel: "compute_relative_band_powers default_extractor
           [(''band_delta'', Fin (band_integral freqs psd 1 4)),
            (''band_theta'', Fin (band_integral freqs psd 4 8)),
            (''band_alpha'', Fin (band_integral freqs psd 8 12)),
            (''band_beta'', Fin (band_integral freqs psd 12 30)),
            (''band_gamma'', Fin (band_integral freqs psd 30 45)),
            (''total_power'', Fin ?T)]
         = [(''rel_delta'', Fin (band_integral freqs psd 1 4 / ?T)),
            (''rel_theta'', Fin (band_integral freqs psd 4 8 / ?T)),
            (''rel_alpha'', Fin (band_integral freqs psd 8 12 / ?T)),
            (''rel_beta'', Fin (band_integral freqs psd 12 30 / ?T)),
            (''rel_gamma'', Fin (band_integral freqs psd 30 45 / ?T))]"
    using nz by (simp add: compute_relative_band_powers_default np_div_def)
  from bp rel sum show ?thesis by (intro exI conjI) (assumption | simp)+
qed

text \<open>
  Stand-ins for \<open>scipy.signal.welch\<close> in the examples: a spectrum of one level on a
  uniform grid of frequencies \<open>0, df, 2 * df, ...\<close>.  The spectrum of an all-zero signal
  is zero everywhere.
\<close>

definition const_welch :: "real list \<Rightarrow> real \<Rightarrow> welch_fn" where
  "const_welch grid level data fs nperseg noverlap = Inr (grid, map (\<lambda>f. level) grid)"

definition uniform_grid :: "real \<Rightarrow> nat \<Rightarrow> real list" where
  "uniform_grid df n = map (\<lambda>k. real k * df) [0 ..< n]"

lemma uniform_grid_11:
  "uniform_grid df 11 = [0, df, 2 * df, 3 * df, 4 * df, 5 * df, 6 * df, 7 * df, 8 * df, 9 * df, 10 * df]"
  by (simp add: uniform_grid_def upt_rec)

theorem relative_powers_sum_to_one_witness:
  "\<exists>bp d t a b g.
     compute_band_powers default_extractor (const_welch (uniform_grid (1 / 2) 11) 1) [] 10 = Inr bp
   \<and> map_of bp ''total_power''
       = Some (Fin (band_integral (uniform_grid (1 / 2) 11) (map (\<lambda>f. 1) (uniform_grid (1 / 2) 11)) 1 45))
   \<and> compute_relative_band_powers default_extractor bp
       = [(''rel_delta'', Fin d), (''rel_theta'', Fin t), (''rel_alpha'', Fin a),
          (''rel_beta'', Fin b), (''rel_gamma'', Fin g)]
   \<and> d + t + a + b + g = 1"
proof -
  let ?g = "uniform_grid (1 / 2) 11"
  have w: "const_welch ?g 1 [] 10 (py_int (fmul 2 10)) (py_int (fmul 2 10) div 2)
             = Inr (?g, map (\<lambda>f. 1) ?g)"
    by (simp add: const_welch_def)
  have len: "length (map (\<lambda>f. 1::real) ?g) = length ?g" by simp
  have srt: "sorted_wrt (<) ?g" by (simp add: uniform_grid_11)
  have grid: "edges_on_grid ?g" by (simp add: edges_on_grid_def uniform_grid_11)
  have nz: "band_integral ?g (map (\<lambda>f. 1) ?g) 1 45 \<noteq> 0"
    by (simp add: uniform_grid_11 band_integral_def mask_select_def)
  show ?thesis
    using relative_powers_sum_to_one
      [of "const_welch ?g 1" "[]" 10 ?g "map (\<lambda>f. 1) ?g", OF w len srt grid nz] .
qed

text \<open>
  At a sampling frequency of 10.4 Hz the default window has 20 samples and the grid has a
  resolution of 0.52 Hz: 4 Hz is not a grid point, the interval from 3.64 Hz to 4.16 Hz
  belongs to the total power and to no band, and on a flat spectrum the relative powers
  sum to 7/8.
\<close>

theorem relative_powers_off_grid_counterexample:
  "compute_band_powers default_extractor (const_welch (uniform_grid (13 / 25) 11) 1)
       (1 # replicate 19 0) (52 / 5)
     = Inr [(''band_delta'', Fin (13 / 5)), (''band_theta'', Fin (26 / 25)),
            (''band_alpha'', Fin 0), (''band_beta'', Fin 0), (''band_gamma'', Fin 0),
            (''total_power'', Fin (104 / 25))]
   \<and> compute_relative_band_powers default_extractor
         [(''band_delta'', Fin (13 / 5)), (''band_theta'', Fin (26 / 25)),
          (''band_alpha'', Fin 0), (''band_beta'', Fin 0), (''band_gamma'', Fin 0),
          (''total_power'', Fin (104 / 25))]
      = [(''rel_delta'', Fin (5 / 8)), (''rel_theta'', Fin (1 / 4)), (''rel_alpha'', Fin 0),
         (''rel_beta'', Fin 0), (''rel_gamma'', Fin 0)]
   \<and> 1 / 10 ^ 6 < \<bar>(5 / 8 + 1 / 4 + 0 + 0 + 0) - (1 :: real)\<bar>"
proof -
  let ?g = "uniform_grid (13 / 25) 11"
  let ?d = "1 # replicate 19 (0 :: real)"
  have w: "const_welch ?g 1 ?d (52 / 5) (py_int (fmul 2 (52 / 5))) (py_int (fmul 2 (52 / 5)) div 2)
             = Inr (?g, map (\<lambda>f. 1) ?g)"
    by (simp add: const_welch_def)
  have i: "band_integral ?g (map (\<lambda>f. 1) ?g) 1 4 = 13 / 5"
    "band_integral ?g (map (\<lambda>f. 1) ?g) 4 8 = 26 / 25"
    "band_integral ?g (map (\<lambda>f. 1) ?g) 8 12 = 0"
    "band_integral ?g (map (\<lambda>f. 1) ?g) 12 30 = 0"
    "band_integral ?g (map (\<lambda>f. 1) ?g) 30 45 = 0"
    "band_integral ?g (map (\<lambda>f. 1) ?g) 1 45 = 104 / 25"
    by (simp_all add: uniform_grid_11 band_integral_def mask_select_def)
  have "compute_band_powers default_extractor (const_welch ?g 1) ?d (52 / 5) =
           Inr [(''band_delta'', Fin (13 / 5)), (''band_theta'', Fin (26 / 25)),
                (''band_alpha'', Fin 0), (''band_beta'', Fin 0), (''band_gamma'', Fin 0),
                (''total_power'', Fin (104 / 25))]"
    using compute_band_powers_default
      [of "const_welch ?g 1" ?d "52 / 5" ?g "map (\<lambda>f. 1) ?g", OF w]
    by (simp add: i)
  then show ?thesis
    by (simp add: compute_relative_band_powers_default np_div_def)
qed

text \<open>
  The same holds on this grid for every spectrum that is positive at 3.64 Hz and 4.16 Hz,
  the two grid points around the edge: the bands add up to less than the total power.
\<close>

lemma off_grid_deficit:
  assumes "0 < p7" and "0 < p8"
  shows "band_integral (uniform_grid (13 / 25) 11) [p0, p1, p2, p3, p4, p5, p6, p7, p8, p9, p10] 1 4
       + band_integral (uniform_grid (13 / 25) 11) [p0, p1, p2, p3, p4, p5, p6, p7, p8, p9, p10] 4 8
       + band_integral (uniform_grid (13 / 25) 11) [p0, p1, p2, p3, p4, p5, p6, p7, p8, p9, p10] 8 12
       + band_integral (uniform_grid (13 / 25) 11) [p0, p1, p2, p3, p4, p5, p6, p7, p8, p9, p10] 12 30
       + band_integral (uniform_grid (13 / 25) 11) [p0, p1, p2, p3, p4, p5, p6, p7, p8, p9, p10] 30 45
       < band_integral (uniform_grid (13 / 25) 11) [p0, p1, p2, p3, p4, p5, p6, p7, p8, p9, p10] 1 45"
  using assms by (simp add: uniform_grid_11 band_integral_def mask_select_def algebra_simps)

text \<open>
  Claim C3.  The relative power is the band power divided by \<open>total_power\<close>, and the
  only guard is the default \<open>1e-10\<close> of \<open>band_powers.get\<close>, used when the key is missing
  (\<open>relative_power_missing_total\<close>).  \<open>compute_band_powers\<close> always sets the key, so for a
  flat (all-zero) channel the total is 0, the division is 0/0 and every relative power is
  nan.
\<close>

theorem relative_powers_of_flat_channel:
  "compute_band_powers default_extractor (const_welch (uniform_grid (1 / 2) 11) 0)
       (replicate 20 0) 10
     = Inr [(''band_delta'', Fin 0), (''band_theta'', Fin 0), (''band_alpha'', Fin 0),
            (''band_beta'', Fin 0), (''band_gamma'', Fin 0), (''total_power'', Fin 0)]
   \<and> compute_relative_band_powers default_extractor
         [(''band_delta'', Fin 0), (''band_theta'', Fin 0), (''band_alpha'', Fin 0),
          (''band_beta'', Fin 0), (''band_gamma'', Fin 0), (''total_power'', Fin 0)]
      = [(''rel_delta'', NaN), (''rel_theta'', NaN), (''rel_alpha'', NaN), (''rel_beta'', NaN),
         (''rel_gamma'', NaN)]
   \<and> \<not> is_finite NaN"
proof -
  let ?g = "uniform_grid (1 / 2) 11"
  have w: "const_welch ?g 0 (replicate 20 0) 10 (py_int (fmul 2 10)) (py_int (fmul 2 10) div 2)
             = Inr (?g, map (\<lambda>f. 0) ?g)"
    by (simp add: const_welch_def)
  have i: "band_integral ?g (map (\<lambda>f. 0) ?g) lo hi = 0" for lo hi
    by (simp add: uniform_grid_11 band_integral_def mask_select_def)
  show ?thesis
    using compute_band_powers_default
      [of "const_welch ?g 0" "replicate 20 0" 10 ?g "map (\<lambda>f. 0) ?g", OF w]
    by (simp add: i compute_relative_band_powers_default np_div_def is_finite_def)
qed

text \<open>
  The division of the sibling \<open>extract_realtime_features\<close> in
  \<open>app/tasks/realtime.py\<close>, \<open>features[name] / (total_power + 1e-10)\<close>, is finite for a
  flat channel.
\<close>

definition realtime_relative_power :: "real \<Rightarrow> real \<Rightarrow> npfloat" where
  "realtime_relative_power band_power total_power =
     np_div (Fin band_power) (Fin (total_power + 1 / 10 ^ 10))"

lemma realtime_relative_power_flat: "realtime_relative_power 0 0 = Fin 0"
  by (simp add: realtime_relative_power_def np_div_def)

lemma relative_power_is_quotient:
  assumes "tot \<noteq> 0"
  shows "compute_relative_band_powers default_extractor
     [(''band_delta'', Fin d), (''band_theta'', Fin t), (''band_alpha'', Fin a),
      (''band_beta'', Fin b), (''band_gamma'', Fin g), (''total_power'', Fin tot)]
   = [(''rel_delta'', Fin (d / tot)), (''rel_theta'', Fin (t / tot)),
      (''rel_alpha'', Fin (a / tot)), (''rel_beta'', Fin (b / tot)),
      (''rel_gamma'', Fin (g / tot))]"
  using assms by (simp add: compute_relative_band_powers_default np_div_def)

lemma relative_power_missing_total:
  "compute_relative_band_powers default_extractor [(''band_delta'', Fin d)]
     = [(''rel_delta'', Fin (d / (1 / 10 ^ 10)))]"
  by (simp add: compute_relative_band_powers_def default_extractor_def default_bands_def Let_def
      dict_set_def dict_get_def np_div_def)

section \<open>The columns and rows of the feature table\<close>

text \<open>The columns of a feature table with the default bands, as the code builds them.\<close>

definition table_columns :: "string list" where
  "table_columns =
     [''epoch_id'', ''channel'',
      ''band_delta'', ''band_theta'', ''band_alpha'', ''band_beta'', ''band_gamma'',
      ''total_power'',
      ''rel_delta'', ''rel_theta'', ''rel_alpha'', ''rel_beta'', ''rel_gamma'',
      ''mean'', ''std'', ''skewness'', ''kurtosis'', ''rms'', ''peak_to_peak'', ''zero_crossings'',
      ''hjorth_activity'', ''hjorth_mobility'', ''hjorth_complexity'',
      ''sample_entropy'']"

text \<open>The keys of a dict after an assignment: a new key goes last.\<close>

definition add_key :: "string list \<Rightarrow> string \<Rightarrow> string list" where
  "add_key ks k = (if k \<in> set ks then ks else ks @ [k])"

lemma keys_dict_set: "keys (dict_set d k v) = add_key (keys d) k"
  by (auto simp: dict_set_def keys_def add_key_def comp_def case_prod_unfold intro!: map_cong)

lemma keys_dict_update: "keys (dict_update d e) = foldl add_key (keys d) (keys e)"
  unfolding dict_update_def
proof (induction e arbitrary: d)
  case Nil
  then show ?case by (simp add: keys_def)
next
  case (Cons p e)
  obtain k v where p: "p = (k, v)" by (cases p)
  have "keys ((k, v) # e) = k # keys e" by (simp add: keys_def)
  then show ?case using Cons [of "dict_set d k v"] by (simp add: p keys_dict_set)
qed

lemma keys_float_cells: "keys (float_cells d) = keys d"
  by (simp add: keys_def float_cells_def comp_def case_prod_unfold)

lemma keys_time_features:
  "compute_time_features d = Inr tf \<Longrightarrow>
     keys tf = [''mean'', ''std'', ''skewness'', ''kurtosis'', ''rms'', ''peak_to_peak'', ''zero_crossings'']"
  by (auto simp: compute_time_features_def keys_def split: sum.splits)

lemma keys_hjorth:
  "keys (compute_hjorth d) = [''hjorth_activity'', ''hjorth_mobility'', ''hjorth_complexity'']"
  by (simp add: compute_hjorth_def keys_def Let_def)

lemma keys_band_powers_default:
  assumes "compute_band_powers default_extractor welch d fs = Inr bp"
  shows "keys bp = [''band_delta'', ''band_theta'', ''band_alpha'', ''band_beta'', ''band_gamma'',
                    ''total_power'']
       \<and> keys (compute_relative_band_powers default_extractor bp)
           = [''rel_delta'', ''rel_theta'', ''rel_alpha'', ''rel_beta'', ''rel_gamma'']"
proof -
  obtain freqs psd where w: "welch d fs (py_int (fmul 2 fs)) (py_int (fmul 2 fs) div 2) = Inr (freqs, psd)"
    using assms
    by (cases "welch d fs (py_int (fmul 2 fs)) (py_int (fmul 2 fs) div 2)")
      (auto simp: compute_band_powers_def default_extractor_def Let_def)
  note bp = compute_band_powers_default [of welch d fs freqs psd, OF w]
  with assms show ?thesis
    by (auto simp: compute_relative_band_powers_default keys_def)
qed

lemma channel_features_keys:
  assumes "channel_features default_extractor welch fs k c d = Inr row"
  shows "keys row = table_columns"
proof -
  obtain bp where bp: "compute_band_powers default_extractor welch d fs = Inr bp"
    using assms
    by (cases "compute_band_powers default_extractor welch d fs")
      (auto simp: channel_features_def)
  obtain tf where tf: "compute_time_features d = Inr tf"
    using assms bp
    by (cases "compute_time_features d") (auto simp: channel_features_def Let_def)
  obtain ent where e: "compute_sample_entropy default_extractor d None None = Inr ent"
    using assms bp tf
    by (cases "compute_sample_entropy default_extractor d None None")
      (auto simp: channel_features_def Let_def)
  have row: "row = dict_set (dict_update (dict_update (dict_update (dict_update
                 [(''epoch_id'', IntCell k), (''channel'', StrCell c)]
                 (float_cells bp))
                 (float_cells (compute_relative_band_powers default_extractor bp)))
                 tf)
                 (float_cells (compute_hjorth d)))
               ''sample_entropy'' (FloatCell (Fin ent))"
    using assms by (simp add: channel_features_def bp tf e Let_def)
  have k0: "keys [(''epoch_id'', IntCell k), (''channel'', StrCell c)] = [''epoch_id'', ''channel'']"
    by (simp add: keys_def)
  show ?thesis
    unfolding row
    by (simp add: keys_dict_set keys_dict_update keys_float_cells keys_hjorth
        keys_time_features [OF tf] keys_band_powers_default [OF bp] k0 add_key_def
        table_columns_def)
qed

lemma foldl_add_key_fresh:
  "distinct (acc @ ks) \<Longrightarrow> foldl add_key acc ks = acc @ ks"
  by (induction ks arbitrary: acc) (auto simp: add_key_def)

lemma foldl_add_key_known:
  "set ks \<subseteq> set acc \<Longrightarrow> foldl add_key acc ks = acc"
  by (induction ks arbitrary: acc) (auto simp: add_key_def)

lemma columns_same_keys:
  assumes "rows \<noteq> []" and "\<forall>row \<in> set rows. keys row = ks" and "distinct ks"
  shows "columns (pd_DataFrame rows) = ks"
proof -
  obtain row rest where rows: "rows = row # rest" using assms(1) by (cases rows) auto
  have a: "(\<lambda>cols k. if k \<in> set cols then cols else cols @ [k]) = add_key"
    by (simp add: add_key_def fun_eq_iff)
  have "concat (map keys rows) = ks @ concat (map keys rest)"
    using assms(2) by (simp add: rows)
  moreover have "set (concat (map keys rest)) \<subseteq> set ks"
    using assms(2) by (auto simp: rows)
  ultimately have "foldl add_key [] (concat (map keys rows)) = ks"
    using assms(3) by (simp add: foldl_add_key_fresh [of "[]", simplified] foldl_add_key_known)
  then show ?thesis by (simp add: pd_DataFrame_def a)
qed

lemma columns_no_rows: "columns (pd_DataFrame []) = []"
  by (simp add: pd_DataFrame_def)

lemma channel_loop_rows:
  assumes "channel_loop body k ed ics = Inr rows"
  shows "length rows = length ics \<and> (\<forall>row \<in> set rows. \<exists>c d. body k c d = Inr row)"
  using assms
proof (induction ics arbitrary: rows)
  case Nil
  then show ?case by simp
next
  case (Cons ic ics)
  obtain i c where ic: "ic = (i, c)" by (cases ic)
  from Cons.prems obtain x others where
    x: "body k c (ed ! i) = Inr x" and o: "channel_loop body k ed ics = Inr others"
    and rows: "rows = x # others"
    by (auto simp: ic split: if_splits sum.splits)
  from Cons.IH [OF o] x show ?case by (auto simp: rows)
qed

lemma epoch_loop_rows:
  assumes "epoch_loop body r step es ks = Inr rows"
  shows "(\<forall>row \<in> set rows. \<exists>k c d. body k c d = Inr row)
       \<and> ((\<forall>k \<in> set ks. k * step + es \<le> int (n_times r)) \<longrightarrow>
            length rows = length ks * length (ch_names r))"
  using assms
proof (induction ks arbitrary: rows)
  case Nil
  then show ?case by simp
next
  case (Cons k ks)
  show ?case
  proof (cases "k * step + es > int (n_times r)")
    case True
    with Cons.prems show ?thesis by (simp add: Let_def)
  next
    case False
    with Cons.prems obtain xs others where
      xs: "channel_loop body k (map (\<lambda>row. py_slice row (k * step) (k * step + es)) (get_data_rows r))
             (zip [0 ..< length (ch_names r)] (ch_names r)) = Inr xs"
      and o: "epoch_loop body r step es ks = Inr others"
      and rows: "rows = xs @ others"
      by (auto simp: Let_def split: sum.splits)
    from channel_loop_rows [OF xs] Cons.IH [OF o] False show ?thesis
      unfolding rows by (simp add: length_zip) blast
  qed
qed

text \<open>The number of epochs of a recording (for a step of at least one sample).\<close>

definition epoch_count :: "raw \<Rightarrow> real \<Rightarrow> real \<Rightarrow> nat" where
  "epoch_count r L ovl =
     (let step = py_int (fmul (fmul L (fsub 1 ovl)) (info_sfreq r));
          es = py_int (fmul L (info_sfreq r));
          n = int (n_times r)
      in if n < es then 0 else nat ((n - es) div step + 1))"

lemma epoch_rows_as_loop:
  fixes r :: raw and L ovl :: real
  defines "step \<equiv> py_int (fmul (fmul L (fsub 1 ovl)) (info_sfreq r))"
    and "es \<equiv> py_int (fmul L (info_sfreq r))"
    and "n \<equiv> int (n_times r)"
  assumes step1: "1 \<le> step"
  shows "epoch_rows body r L ovl
           = epoch_loop body r step es (map int [0 ..< epoch_count r L ovl])
       \<and> (\<forall>k \<in> set (map int [0 ..< epoch_count r L ovl]). k * step + es \<le> n)"
proof -
  let ?N = "epoch_count r L ovl"
  have N_def: "?N = (if n < es then 0 else nat ((n - es) div step + 1))"
    by (simp add: epoch_count_def Let_def step_def es_def n_def)
  have pes: "py_int (fmul L (info_sfreq r)) = es" by (simp add: es_def)
  have pstep: "py_int (fmul (fmul L (fsub 1 ovl)) (info_sfreq r)) = step"
    by (simp add: step_def)
  have Neq: "nat ((n - es) div step + 1) = ?N"
  proof (cases "n < es")
    case True
    then have "(n - es) div step < 0" using step1 by (simp add: div_neg_pos_less0)
    then show ?thesis using True by (simp add: N_def)
  next
    case False
    then show ?thesis by (simp add: N_def)
  qed
  have bound: "int k * step + es \<le> n" if "k < ?N" for k
  proof -
    from that have nes: "\<not> n < es" by (auto simp: N_def split: if_splits)
    then have "0 \<le> (n - es) div step" using step1 by (simp add: pos_imp_zdiv_nonneg_iff)
    with that have "int k \<le> (n - es) div step" using nes by (simp add: N_def)
    then have "int k * step \<le> ((n - es) div step) * step"
      using step1 by (simp add: mult_right_mono)
    also have "\<dots> \<le> n - es"
    proof -
      have "0 \<le> (n - es) mod step" using step1 by simp
      moreover have "(n - es) div step * step + (n - es) mod step = n - es" by simp
      ultimately show ?thesis by linarith
    qed
    finally show ?thesis by simp
  qed
  have "epoch_rows body r L ovl = epoch_loop body r step es (map int [0 ..< ?N])"
    using step1 by (simp add: epoch_rows_def Let_def pstep pes Neq n_def [symmetric])
  with bound show ?thesis by auto
qed

lemma sample_entropy_succeeds:
  assumes "0 < entropy_m self"
  shows "\<exists>e. compute_sample_entropy self d None None = Inr e"
  using assms count_matches_count [of "entropy_m self" d]
    count_matches_count [of "entropy_m self + 1" d]
  by (simp add: compute_sample_entropy_def Let_def)

lemma channel_features_succeeds:
  assumes "welch d fs (py_int (fmul 2 fs)) (py_int (fmul 2 fs) div 2) = Inr (freqs, psd)"
    and "d \<noteq> []"
  shows "\<exists>row. channel_features default_extractor welch fs k c d = Inr row"
proof -
  note bp = compute_band_powers_default [of welch d fs freqs psd, OF assms(1)]
  obtain e where e: "compute_sample_entropy default_extractor d None None = Inr e"
    using sample_entropy_succeeds [of default_extractor d] by (auto simp: default_extractor_def)
  show ?thesis
    using assms(2) by (simp add: channel_features_def bp compute_time_features_def np_ptp_def e Let_def)
qed

lemma feature_table_shape:
  assumes wf: "wf_raw r"
    and pos: "1 \<le> py_int (fmul (fmul L (fsub 1 ovl)) (info_sfreq r))"
    and df: "extract_all_features default_extractor welch r L ovl = Inr df"
  shows "length (records df) = epoch_count r L ovl * length (ch_names r)
       \<and> columns df = (if records df = [] then [] else table_columns)"
proof -
  let ?body = "channel_features default_extractor welch (info_sfreq r)"
  from df obtain rows where rows: "epoch_rows ?body r L ovl = Inr rows"
    and d: "df = pd_DataFrame rows"
    by (auto simp: extract_all_features_def split: sum.splits)
  note loop = epoch_rows_as_loop [OF pos, of ?body]
  from loop rows have l: "epoch_loop ?body r (py_int (fmul (fmul L (fsub 1 ovl)) (info_sfreq r)))
        (py_int (fmul L (info_sfreq r))) (map int [0 ..< epoch_count r L ovl]) = Inr rows"
    by simp
  from epoch_loop_rows [OF l] loop
  have len: "length rows = epoch_count r L ovl * length (ch_names r)"
    and each: "\<forall>row \<in> set rows. \<exists>k c d. ?body k c d = Inr row"
    by auto
  from each have ks: "\<forall>row \<in> set rows. keys row = table_columns"
    using channel_features_keys by blast
  have "distinct table_columns" by (simp add: table_columns_def)
  with ks have "rows \<noteq> [] \<Longrightarrow> columns (pd_DataFrame rows) = table_columns"
    by (intro columns_same_keys) auto
  with len show ?thesis
    by (auto simp: d columns_no_rows) (simp_all add: pd_DataFrame_def)
qed

text \<open>
  The feature columns of a table, as \<open>extract_channel_averaged_features\<close> and the
  feature task select them: every column but \<open>epoch_id\<close> and \<open>channel\<close>.
\<close>

definition feature_columns :: "DataFrame \<Rightarrow> string list" where
  "feature_columns df = filter (\<lambda>c. c \<notin> set [''epoch_id'', ''channel'']) (columns df)"

text \<open>
  The order of the specification, in its words: the band powers in band-list order, the
  relative band powers, the time statistics, the Hjorth parameters, the sample entropy.
\<close>

definition spec_feature_columns :: "band list \<Rightarrow> string list" where
  "spec_feature_columns bs =
     map (\<lambda>b. ''band_'' @ name b) bs @ map (\<lambda>b. ''rel_'' @ name b) bs
     @ [''mean'', ''std'', ''skewness'', ''kurtosis'', ''rms'', ''peak_to_peak'', ''zero_crossings'']
     @ [''hjorth_activity'', ''hjorth_mobility'', ''hjorth_complexity'']
     @ [''sample_entropy'']"

lemma demo_table:
  "\<exists>df. extract_all_features default_extractor (const_welch (uniform_grid (1 / 2) 3) 1)
          demo_raw 2 (1 / 2) = Inr df
      \<and> length (records df) = 2"
proof -
  let ?w = "const_welch (uniform_grid (1 / 2) 3) 1"
  let ?body = "channel_features default_extractor ?w 2"
  have w: "?w d 2 (py_int (fmul 2 2)) (py_int (fmul 2 2) div 2)
             = Inr (uniform_grid (1 / 2) 3, map (\<lambda>f. 1) (uniform_grid (1 / 2) 3))" for d
    by (simp add: const_welch_def)
  obtain row0 where r0: "?body 0 ''Cz'' [1, 2, 3, 4] = Inr row0"
    using channel_features_succeeds [of ?w "[1, 2, 3, 4]" 2, OF w] by blast
  obtain row1 where r1: "?body 1 ''Cz'' [3, 4, 5, 6] = Inr row1"
    using channel_features_succeeds [of ?w "[3, 4, 5, 6]" 2, OF w] by blast
  have "epoch_rows ?body demo_raw 2 (1 / 2) = Inr [row0, row1]"
    using demo_raw_step
    by (simp add: epoch_rows_def Let_def)
      (simp add: demo_raw_def two_epochs py_slice_def py_norm_def r0 r1)
  then show ?thesis
    by (simp add: extract_all_features_def demo_raw_def pd_DataFrame_def)
qed

text \<open>
  Claim C1 (as amended).  With the default configuration and a step of at least one
  sample (the step that the code computes, see \<open>epoch_rows\<close>), a feature table that is
  produced has one row per epoch and channel, and, when it has a row, its columns are
  \<open>epoch_id\<close>, \<open>channel\<close>, the band powers in band-list order, \<open>total_power\<close>, the
  relative band powers, the time statistics, the Hjorth parameters and the sample
  entropy, in this order.  (A table with no row has no column, see
  \<open>short_buffer_has_no_columns\<close>.)
\<close>

theorem feature_table_columns:
  assumes wf: "wf_raw r"
    and pos: "1 \<le> py_int (fmul (fmul L (fsub 1 ovl)) (info_sfreq r))"
    and df: "extract_all_features default_extractor welch r L ovl = Inr df"
  shows "length (records df) = epoch_count r L ovl * length (ch_names r)
       \<and> (records df \<noteq> [] \<longrightarrow>
            columns df = [''epoch_id'', ''channel'']
                @ map (\<lambda>b. ''band_'' @ name b) default_bands @ [''total_power'']
                @ map (\<lambda>b. ''rel_'' @ name b) default_bands
                @ [''mean'', ''std'', ''skewness'', ''kurtosis'', ''rms'', ''peak_to_peak'',
                   ''zero_crossings'']
                @ [''hjorth_activity'', ''hjorth_mobility'', ''hjorth_complexity'']
                @ [''sample_entropy''])"
  using feature_table_shape [OF wf pos df]
  by (simp add: table_columns_def default_bands_def)

theorem feature_table_columns_witness:
  "\<exists>df. extract_all_features default_extractor (const_welch (uniform_grid (1 / 2) 3) 1)
          demo_raw 2 (1 / 2) = Inr df
      \<and> length (records df) = 2 * 1
      \<and> columns df = [''epoch_id'', ''channel'',
           ''band_delta'', ''band_theta'', ''band_alpha'', ''band_beta'', ''band_gamma'',
           ''total_power'',
           ''rel_delta'', ''rel_theta'', ''rel_alpha'', ''rel_beta'', ''rel_gamma'',
           ''mean'', ''std'', ''skewness'', ''kurtosis'', ''rms'', ''peak_to_peak'',
           ''zero_crossings'', ''hjorth_activity'', ''hjorth_mobility'', ''hjorth_complexity'',
           ''sample_entropy'']"
proof -
  obtain df where df: "extract_all_features default_extractor
      (const_welch (uniform_grid (1 / 2) 3) 1) demo_raw 2 (1 / 2) = Inr df"
    and n: "length (records df) = 2"
    using demo_table by blast
  have wf: "wf_raw demo_raw" by (simp add: wf_raw_def demo_raw_def)
  have b: "1 \<le> py_int (fmul (fmul 2 (fsub 1 (1 / 2))) (info_sfreq demo_raw))"
    by (simp add: demo_raw_step)
  from n have ne: "records df \<noteq> []" by auto
  from feature_table_columns [OF wf b df] ne n df show ?thesis
    by (simp add: default_bands_def)
qed

text \<open>
  The table of the seven-sample recording has the feature column \<open>total_power\<close>, which
  the order of the specification does not have.
\<close>

theorem feature_table_total_power_counterexample:
  "map_sum id feature_columns
     (extract_all_features default_extractor (const_welch (uniform_grid (1 / 2) 3) 1)
        demo_raw 2 (1 / 2))
     = Inr [''band_delta'', ''band_theta'', ''band_alpha'', ''band_beta'', ''band_gamma'',
            ''total_power'',
            ''rel_delta'', ''rel_theta'', ''rel_alpha'', ''rel_beta'', ''rel_gamma'',
            ''mean'', ''std'', ''skewness'', ''kurtosis'', ''rms'', ''peak_to_peak'',
            ''zero_crossings'', ''hjorth_activity'', ''hjorth_mobility'', ''hjorth_complexity'',
            ''sample_entropy'']
   \<and> spec_feature_columns default_bands
     = [''band_delta'', ''band_theta'', ''band_alpha'', ''band_beta'', ''band_gamma'',
        ''rel_delta'', ''rel_theta'', ''rel_alpha'', ''rel_beta'', ''rel_gamma'',
        ''mean'', ''std'', ''skewness'', ''kurtosis'', ''rms'', ''peak_to_peak'',
        ''zero_crossings'', ''hjorth_activity'', ''hjorth_mobility'', ''hjorth_complexity'',
        ''sample_entropy'']"
proof -
  obtain df where df: "extract_all_features default_extractor
      (const_welch (uniform_grid (1 / 2) 3) 1) demo_raw 2 (1 / 2) = Inr df"
    and n: "length (records df) = 2"
    using demo_table by blast
  have wf: "wf_raw demo_raw" by (simp add: wf_raw_def demo_raw_def)
  have b: "1 \<le> py_int (fmul (fmul 2 (fsub 1 (1 / 2))) (info_sfreq demo_raw))"
    by (simp add: demo_raw_step)
  from n have ne: "records df \<noteq> []" by auto
  from feature_table_shape [OF wf b df] ne have c: "columns df = table_columns" by simp
  show ?thesis
    by (simp add: df feature_columns_def c table_columns_def spec_feature_columns_def
        default_bands_def)
qed

lemma short_buffer_has_no_columns:
  assumes "1 \<le> py_int (fmul (fmul L (fsub 1 ovl)) (info_sfreq r))"
    and "int (n_times r) < py_int (fmul L (info_sfreq r))"
  shows "extract_all_features self welch r L ovl = Inr \<lparr>columns = [], records = []\<rparr>"
  using epoch_rows_as_loop [OF assms(1), of "channel_features self welch (info_sfreq r)"] assms(2)
  by (simp add: extract_all_features_def epoch_count_def pd_DataFrame_def)

section \<open>Which channels are marked bad\<close>

text \<open>The three tests of a channel, by its index (or its position among the EEG channels).\<close>

definition is_flat :: "raw \<Rightarrow> real \<Rightarrow> nat \<Rightarrow> bool" where
  "is_flat r flat_threshold idx = np_lt (np_std (get_data_rows r ! idx)) flat_threshold"

definition high_kurtosis :: "raw \<Rightarrow> real \<Rightarrow> nat \<Rightarrow> bool" where
  "high_kurtosis r kurtosis_threshold idx =
     np_gt (stats_kurtosis (get_data_rows r ! idx)) kurtosis_threshold"

lemma flat_kurtosis_loop_set:
  "set (flat_kurtosis_loop r f k picks bad)
     = set bad \<union> {ch_names r ! idx | idx. idx \<in> set picks \<and> (is_flat r f idx \<or> high_kurtosis r k idx)}"
  by (induction picks arbitrary: bad) (auto simp: Let_def is_flat_def high_kurtosis_def)

lemma flat_kurtosis_loop_distinct:
  assumes "distinct bad" and "distinct (map (\<lambda>idx. ch_names r ! idx) picks)"
    and "\<forall>idx \<in> set picks. ch_names r ! idx \<notin> set bad"
  shows "distinct (flat_kurtosis_loop r f k picks bad)"
  using assms
proof (induction picks arbitrary: bad)
  case Nil
  then show ?case by simp
next
  case (Cons a picks)
  have 1: "distinct (map (\<lambda>idx. ch_names r ! idx) picks)" using Cons.prems by simp
  have 2: "\<forall>idx \<in> set picks. ch_names r ! idx \<notin> set bad" using Cons.prems by simp
  have 3: "distinct (bad @ [ch_names r ! a])" using Cons.prems by simp
  have 4: "\<forall>idx \<in> set picks. ch_names r ! idx \<notin> set (bad @ [ch_names r ! a])"
    using Cons.prems by (auto simp: image_iff)
  show ?case
    using Cons.IH [OF Cons.prems(1) 1 2] Cons.IH [OF 3 1 4] by (simp add: Let_def)
qed

lemma zscore_loop_set:
  "set (zscore_loop r t z pairs bad)
     = set bad \<union> {ch_names r ! idx | i idx. (i, idx) \<in> set pairs \<and> np_gt (np_abs (z ! i)) t}"
  by (induction pairs arbitrary: bad) (auto simp: Let_def split: if_splits, blast+)

lemma zscore_loop_distinct:
  "distinct bad \<Longrightarrow> distinct (zscore_loop r t z pairs bad)"
  by (induction pairs arbitrary: bad) (auto simp: Let_def)

lemma picks_props:
  "distinct (pick_types_eeg r)"
  "idx \<in> set (pick_types_eeg r) \<longleftrightarrow> idx < length (ch_names r) \<and> ch_is_eeg r ! idx"
  by (auto simp: pick_types_eeg_def)

lemma picked_names_distinct:
  assumes "distinct (ch_names r)"
  shows "distinct (map (\<lambda>idx. ch_names r ! idx) (pick_types_eeg r))"
  using assms picks_props [where r = r]
  by (auto simp: distinct_map inj_on_def nth_eq_iff_index_eq)

lemma zscore_single: "stats_zscore_arr [v] = [NaN]"
  by (cases v) (simp_all add: stats_zscore_arr_def stats_zscore_def central_moment_def np_div_def Let_def)

lemma in_enumerate:
  "(i, x) \<in> set (zip [0 ..< length xs] xs) \<longleftrightarrow> i < length xs \<and> x = xs ! i"
proof
  assume "(i, x) \<in> set (zip [0 ..< length xs] xs)"
  then show "i < length xs \<and> x = xs ! i" by (auto simp: set_zip)
next
  assume a: "i < length xs \<and> x = xs ! i"
  then have "(i, x) = zip [0 ..< length xs] xs ! i" by simp
  moreover have "i < length (zip [0 ..< length xs] xs)" using a by simp
  ultimately show "(i, x) \<in> set (zip [0 ..< length xs] xs)" by (metis nth_mem)
qed

definition high_variance :: "raw \<Rightarrow> real \<Rightarrow> nat \<Rightarrow> bool" where
  "high_variance r zscore_threshold j =
     np_gt (np_abs (stats_zscore_arr (map (\<lambda>idx. np_var (get_data_rows r ! idx)) (pick_types_eeg r)) ! j))
       zscore_threshold"

lemma high_variance_few:
  assumes "length (pick_types_eeg r) \<le> 1" and "j < length (pick_types_eeg r)"
  shows "\<not> high_variance r t j"
proof -
  from assms obtain p where p: "pick_types_eeg r = [p]" and j: "j = 0"
    by (cases "pick_types_eeg r") auto
  show ?thesis by (simp add: high_variance_def p j zscore_single np_abs_def np_gt_def)
qed

lemma detect_bad_channels_set:
  fixes self :: PreprocessingPipeline and r :: raw
  defines "flat \<equiv> dict_get (artifact_config self) ''flat_threshold'' (1 / 10 ^ 6)"
    and "zthr \<equiv> dict_get (artifact_config self) ''high_variance_zscore'' 5"
    and "kthr \<equiv> dict_get (artifact_config self) ''kurtosis_threshold'' 10"
    and "picks \<equiv> pick_types_eeg r"
  assumes dn: "distinct (ch_names r)"
  shows "distinct (snd (detect_bad_channels self r))
       \<and> (\<forall>j < length picks.
             (ch_names r ! (picks ! j) \<in> set (snd (detect_bad_channels self r)))
               = (is_flat r flat (picks ! j) \<or> high_kurtosis r kthr (picks ! j) \<or> high_variance r zthr j))
       \<and> (\<forall>c \<in> set (snd (detect_bad_channels self r)). \<exists>j < length picks. c = ch_names r ! (picks ! j))"
proof -
  let ?bad1 = "flat_kurtosis_loop r flat kthr picks []"
  let ?z = "stats_zscore_arr (map (\<lambda>idx. np_var (get_data_rows r ! idx)) picks)"
  let ?bad = "snd (detect_bad_channels self r)"
  have bad: "?bad = (if length picks > 1
                     then zscore_loop r zthr ?z (zip [0 ..< length picks] picks) ?bad1 else ?bad1)"
    by (simp add: detect_bad_channels_def Let_def flat_def zthr_def kthr_def picks_def)
  have d1: "distinct ?bad1"
    using picked_names_distinct [OF dn] by (intro flat_kurtosis_loop_distinct) (simp_all add: picks_def)
  have dist: "distinct ?bad" using d1 by (simp add: bad zscore_loop_distinct)
  have inj: "ch_names r ! (picks ! i) = ch_names r ! (picks ! j) \<longleftrightarrow> i = j"
    if "i < length picks" "j < length picks" for i j
    using picked_names_distinct [OF dn] that
    by (metis picks_def length_map nth_eq_iff_index_eq nth_map)
  have s1: "set ?bad1 = {ch_names r ! idx | idx. idx \<in> set picks \<and> (is_flat r flat idx \<or> high_kurtosis r kthr idx)}"
    by (simp add: flat_kurtosis_loop_set)
  have m1: "ch_names r ! (picks ! j) \<in> set ?bad1
              \<longleftrightarrow> is_flat r flat (picks ! j) \<or> high_kurtosis r kthr (picks ! j)"
    if j: "j < length picks" for j
  proof
    assume "ch_names r ! (picks ! j) \<in> set ?bad1"
    then obtain idx where i: "idx \<in> set picks" "ch_names r ! (picks ! j) = ch_names r ! idx"
      and b: "is_flat r flat idx \<or> high_kurtosis r kthr idx"
      unfolding s1 by blast
    from i(1) obtain i' where "i' < length picks" "idx = picks ! i'" by (auto simp: in_set_conv_nth)
    with i(2) inj [OF j] have "idx = picks ! j" by auto
    with b show "is_flat r flat (picks ! j) \<or> high_kurtosis r kthr (picks ! j)" by simp
  next
    assume "is_flat r flat (picks ! j) \<or> high_kurtosis r kthr (picks ! j)"
    then show "ch_names r ! (picks ! j) \<in> set ?bad1"
      unfolding s1 using j by auto
  qed
  have iff: "(ch_names r ! (picks ! j) \<in> set ?bad)
               = (is_flat r flat (picks ! j) \<or> high_kurtosis r kthr (picks ! j) \<or> high_variance r zthr j)"
    if j: "j < length picks" for j
  proof (cases "length picks > 1")
    case False
    then have "\<not> high_variance r zthr j" using high_variance_few [of r j zthr] j by (simp add: picks_def)
    with False m1 [OF j] show ?thesis by (simp add: bad)
  next
    case True
    have z: "ch_names r ! (picks ! j) \<in> {ch_names r ! idx | i idx.
                (i, idx) \<in> set (zip [0 ..< length picks] picks) \<and> np_gt (np_abs (?z ! i)) zthr}
             \<longleftrightarrow> high_variance r zthr j"
    proof
      assume "ch_names r ! (picks ! j) \<in> {ch_names r ! idx | i idx.
                (i, idx) \<in> set (zip [0 ..< length picks] picks) \<and> np_gt (np_abs (?z ! i)) zthr}"
      then obtain i idx where e: "ch_names r ! (picks ! j) = ch_names r ! idx"
        and m: "(i, idx) \<in> set (zip [0 ..< length picks] picks)" and g: "np_gt (np_abs (?z ! i)) zthr"
        by blast
      from m have "i < length picks" "idx = picks ! i" by (simp_all add: in_enumerate)
      with e inj [OF j] have "i = j" by auto
      with g show "high_variance r zthr j" by (simp add: high_variance_def picks_def)
    next
      assume "high_variance r zthr j"
      then have "np_gt (np_abs (?z ! j)) zthr" by (simp add: high_variance_def picks_def)
      moreover have "(j, picks ! j) \<in> set (zip [0 ..< length picks] picks)"
        using j by (simp add: in_enumerate)
      ultimately show "ch_names r ! (picks ! j) \<in> {ch_names r ! idx | i idx.
                (i, idx) \<in> set (zip [0 ..< length picks] picks) \<and> np_gt (np_abs (?z ! i)) zthr}"
        by blast
    qed
    show ?thesis
      using True m1 [OF j] z by (simp add: bad zscore_loop_set)
  qed
  have sub: "\<exists>j < length picks. c = ch_names r ! (picks ! j)" if "c \<in> set ?bad" for c
  proof -
    from that have "c \<in> set ?bad1 \<or> c \<in> {ch_names r ! idx | i idx.
                (i, idx) \<in> set (zip [0 ..< length picks] picks) \<and> np_gt (np_abs (?z ! i)) zthr}"
      by (auto simp: bad zscore_loop_set split: if_splits)
    then show ?thesis
      unfolding s1 by (auto simp: in_enumerate in_set_conv_nth)
  qed
  from dist iff sub show ?thesis by blast
qed

lemma sum_sq_dev: 
  fixes ys :: "real list"
  shows "sum_list (map (\<lambda>y. (y - c)^2) ys) = sum_list (map (\<lambda>y. y^2) ys) - 2 * c * sum_list ys + real (length ys) * c^2"
  by (induction ys) (simp_all add: power2_eq_square algebra_simps)

lemma sum_list_sq_bound:
  fixes ys :: "real list"
  shows "(sum_list ys)^2 \<le> real (length ys) * sum_list (map (\<lambda>y. y^2) ys)"
proof (cases "ys = []")
  case True then show ?thesis by simp
next
  case False
  let ?n = "real (length ys)"
  let ?c = "sum_list ys / ?n"
  have n: "0 < ?n" using False by simp
  have "0 \<le> sum_list (map (\<lambda>y. (y - ?c)^2) ys)" by (rule sum_list_nonneg) auto
  also have "\<dots> = sum_list (map (\<lambda>y. y^2) ys) - 2 * ?c * sum_list ys + ?n * ?c^2" by (rule sum_sq_dev)
  also have "\<dots> = sum_list (map (\<lambda>y. y^2) ys) - (sum_list ys)^2 / ?n"
    using n by (simp add: power2_eq_square field_simps)
  finally have "(sum_list ys)^2 / ?n \<le> sum_list (map (\<lambda>y. y^2) ys)" by simp
  then show ?thesis using n by (simp add: field_simps)
qed

lemma kurtosis_lower_bound:
  assumes "stats_kurtosis xs = Fin k"
  shows "- 2 \<le> k"
proof -
  from assms have ne: "xs \<noteq> []" and m2: "central_moment 2 xs \<noteq> 0"
    and k: "k = central_moment 4 xs / (central_moment 2 xs) ^ 2 - 3"
    by (auto simp: stats_kurtosis_def split: if_splits)
  let ?n = "real (length xs)"
  let ?mu = "sum_list xs / ?n"
  let ?ys = "map (\<lambda>x. (x - ?mu) ^ 2) xs"
  have n: "0 < ?n" using ne by simp
  have c2: "central_moment 2 xs = sum_list ?ys / ?n" by (simp add: central_moment_def Let_def)
  have c4: "central_moment 4 xs = sum_list (map (\<lambda>y. y ^ 2) ?ys) / ?n"
    by (simp add: central_moment_def Let_def comp_def)
  have "(sum_list ?ys) ^ 2 \<le> ?n * sum_list (map (\<lambda>y. y ^ 2) ?ys)"
    using sum_list_sq_bound [of ?ys] by simp
  then have "(sum_list ?ys / ?n) ^ 2 \<le> sum_list (map (\<lambda>y. y ^ 2) ?ys) / ?n"
    using n by (simp add: power2_eq_square field_simps)
  then have le: "(central_moment 2 xs) ^ 2 \<le> central_moment 4 xs" by (simp only: c2 c4)
  have "0 < (central_moment 2 xs) ^ 2" using m2 by simp
  with le have "1 \<le> central_moment 4 xs / (central_moment 2 xs) ^ 2" by (simp add: field_simps)
  then show ?thesis by (simp add: k)
qed

lemma signed_kurtosis_test:
  assumes "2 \<le> t"
  shows "np_gt (np_abs (stats_kurtosis xs)) t \<longleftrightarrow> np_gt (stats_kurtosis xs) t"
proof (cases "stats_kurtosis xs")
  case (Fin k)
  with kurtosis_lower_bound [OF Fin] assms show ?thesis
    by (auto simp: np_gt_def np_abs_def)
qed (simp_all add: np_gt_def np_abs_def stats_kurtosis_def split: if_splits)

text \<open>
  Claim C4 (as amended).  For a recording with distinct channel names,
  \<open>detect_bad_channels\<close> returns a list without duplicates that holds EEG channels only,
  and an EEG channel is in it if and only if its standard deviation is below
  \<open>flat_threshold\<close>, or its kurtosis (signed, not its absolute value) exceeds
  \<open>kurtosis_threshold\<close>, or the absolute z-score of its variance across the EEG channels
  exceeds \<open>high_variance_zscore\<close>.  The excess kurtosis is never below -2, so for a
  threshold of at least 2, the default 10 included, the signed test and the test on the
  absolute value mark the same channels.
\<close>

theorem detect_bad_channels_marks:
  fixes self :: PreprocessingPipeline and r :: raw
  defines "flat \<equiv> dict_get (artifact_config self) ''flat_threshold'' (1 / 10 ^ 6)"
    and "zthr \<equiv> dict_get (artifact_config self) ''high_variance_zscore'' 5"
    and "kthr \<equiv> dict_get (artifact_config self) ''kurtosis_threshold'' 10"
    and "picks \<equiv> pick_types_eeg r"
  assumes dn: "distinct (ch_names r)"
  shows "distinct (snd (detect_bad_channels self r))
       \<and> (\<forall>j < length picks.
             (ch_names r ! (picks ! j) \<in> set (snd (detect_bad_channels self r)))
               = (np_lt (np_std (get_data_rows r ! (picks ! j))) flat
                  \<or> np_gt (stats_kurtosis (get_data_rows r ! (picks ! j))) kthr
                  \<or> high_variance r zthr j))
       \<and> (\<forall>c \<in> set (snd (detect_bad_channels self r)). \<exists>j < length picks. c = ch_names r ! (picks ! j))
       \<and> (2 \<le> kthr \<longrightarrow>
            (\<forall>j < length picks.
               np_gt (stats_kurtosis (get_data_rows r ! (picks ! j))) kthr
                 = np_gt (np_abs (stats_kurtosis (get_data_rows r ! (picks ! j)))) kthr))"
  using detect_bad_channels_set [OF dn, of self] signed_kurtosis_test [of kthr]
  unfolding flat_def zthr_def kthr_def picks_def is_flat_def high_kurtosis_def
  by blast

text \<open>A recording of two EEG channels, the second flat, and the default thresholds.\<close>

definition two_channel_raw :: raw where
  "two_channel_raw = \<lparr>info_sfreq = 250, ch_names = [''Cz'', ''Fz''], ch_is_eeg = [True, True],
      n_times = 4, get_data_rows = [[1, -1, 1, -1], [0, 0, 0, 0]], info_bads = []\<rparr>"

definition default_pipeline :: PreprocessingPipeline where
  "default_pipeline = \<lparr>artifact_config =
      [(''flat_threshold'', 1 / 10 ^ 6), (''high_variance_zscore'', 5), (''kurtosis_threshold'', 10)]\<rparr>"

lemma picks_two: "pick_types_eeg two_channel_raw = [0, 1]"
  by (simp add: pick_types_eeg_def two_channel_raw_def upt_rec)

theorem detect_bad_channels_marks_witness:
  "distinct (snd (detect_bad_channels default_pipeline two_channel_raw))
   \<and> ''Fz'' \<in> set (snd (detect_bad_channels default_pipeline two_channel_raw))
   \<and> ''Cz'' \<notin> set (snd (detect_bad_channels default_pipeline two_channel_raw))
   \<and> np_gt (stats_kurtosis (get_data_rows two_channel_raw ! 0)) 10
       = np_gt (np_abs (stats_kurtosis (get_data_rows two_channel_raw ! 0))) 10"
proof -
  have d: "distinct (ch_names two_channel_raw)" by (simp add: two_channel_raw_def)
  have k: "stats_kurtosis [1, -1, 1, -1] = Fin (- 2)"
    by (simp add: stats_kurtosis_def central_moment_def)
  have s1: "np_std [1, -1, 1, -1] = Fin 1" by (simp add: np_std_def central_moment_def)
  have s0: "np_std [0, 0, 0, 0] = Fin 0" by (simp add: np_std_def central_moment_def)
  have z: "stats_zscore_arr [np_var [1, -1, 1, -1], np_var [0, 0, 0, 0]] = [Fin 1, Fin (- 1)]"
    by (simp add: stats_zscore_arr_def stats_zscore_def np_var_def central_moment_def np_div_def
        Let_def power2_eq_square real_sqrt_divide)
  note t = detect_bad_channels_marks [OF d, of default_pipeline, THEN conjunct2, THEN conjunct1]
  have c: "(''Cz'' \<in> set (snd (detect_bad_channels default_pipeline two_channel_raw))) = False"
    using t [rule_format, of 0]
    by (simp add: picks_two default_pipeline_def dict_get_def two_channel_raw_def
        k s1 z high_variance_def np_lt_def np_gt_def np_abs_def pick_types_eeg_def upt_rec)
  have f: "(''Fz'' \<in> set (snd (detect_bad_channels default_pipeline two_channel_raw))) = True"
    using t [rule_format, of 1]
    by (simp add: default_pipeline_def dict_get_def two_channel_raw_def
        s0 np_lt_def pick_types_eeg_def upt_rec)
  have a: "np_gt (stats_kurtosis (get_data_rows two_channel_raw ! 0)) 10
             = np_gt (np_abs (stats_kurtosis (get_data_rows two_channel_raw ! 0))) 10"
    using detect_bad_channels_marks [OF d, of default_pipeline, THEN conjunct2, THEN conjunct2,
        THEN conjunct2, rule_format, of 0]
    by (simp add: picks_two default_pipeline_def dict_get_def)
  from detect_bad_channels_marks [OF d, of default_pipeline, THEN conjunct1] c f a
  show ?thesis by simp
qed

text \<open>
  With a kurtosis threshold of 1, a channel that alternates between 1 and -1 has kurtosis
  -2, of absolute value above the threshold, and is not marked.
\<close>

definition one_channel_raw :: raw where
  "one_channel_raw = \<lparr>info_sfreq = 250, ch_names = [''Cz''], ch_is_eeg = [True],
      n_times = 4, get_data_rows = [[1, -1, 1, -1]], info_bads = []\<rparr>"

theorem kurtosis_sign_counterexample:
  "snd (detect_bad_channels \<lparr>artifact_config = [(''kurtosis_threshold'', 1)]\<rparr> one_channel_raw) = []
   \<and> stats_kurtosis (get_data_rows one_channel_raw ! 0) = Fin (- 2)
   \<and> np_gt (np_abs (stats_kurtosis (get_data_rows one_channel_raw ! 0))) 1"
proof -
  have k: "stats_kurtosis [1, -1, 1, -1] = Fin (- 2)"
    by (simp add: stats_kurtosis_def central_moment_def)
  have s1: "np_std [1, -1, 1, -1] = Fin 1" by (simp add: np_std_def central_moment_def)
  show ?thesis
    by (simp add: detect_bad_channels_def one_channel_raw_def pick_types_eeg_def upt_rec
        dict_get_def Let_def k s1 np_lt_def np_gt_def np_abs_def)
qed

section \<open>The model registry: \<open>promote_model\<close> of \<open>app/api/models.py\<close>\<close>

text \<open>
  The rows of the tables \<open>ml_models\<close> and \<open>audit_logs\<close> as far as the code reads and writes
  them.  The stage is a string column; \<open>metrics\<close> is a JSON column that may be null.
\<close>

record MLModel =
  model_id :: string
  stage :: string
  metrics :: "real pydict option"
  s3_path :: "string option"
  feature_names :: "string list option"
  cv_results :: "real list pydict option"
  pipeline :: "string list option"
  scaler_params :: "(real list \<times> real list) option"

record AuditLog =
  action :: string
  resource_type :: string
  resource_id :: string
  details_new_stage :: string
  details_metrics :: "real pydict"

record database =
  ml_models :: "MLModel list"
  audit_logs :: "AuditLog list"

definition set_stage :: "string \<Rightarrow> string \<Rightarrow> MLModel list \<Rightarrow> MLModel list" where
  \<comment> \<open>Assigning \<open>stage\<close> on the row object with this primary key.\<close>
  "set_stage mid s ms = map (\<lambda>m. if model_id m = mid then m\<lparr>stage := s\<rparr> else m) ms"

text \<open>
  \<open>promote_model\<close> returns the HTTP status and the states of the database that it
  commits, in order: none when the request is refused, so that the database is unchanged.
  The promotion and the demotion are written to the session before the first
  \<open>db.session.commit()\<close>; the second commit adds the audit record.  \<open>first()\<close> takes the
  first production row in the order of the table.
\<close>

definition promote_model ::
  "real pydict \<Rightarrow> database \<Rightarrow> string \<Rightarrow> string option \<Rightarrow> nat \<times> database list" where
  "promote_model thresholds db mid stage_arg =
     (case find (\<lambda>m. model_id m = mid) (ml_models db) of
        None \<Rightarrow> (404, [])
      | Some model \<Rightarrow>
          (let new_stage = (case stage_arg of None \<Rightarrow> ''candidate'' | Some s \<Rightarrow> s)
           in if new_stage \<notin> set [''candidate'', ''production''] then (400, [])
              else
                (let metrics_dict = (case metrics model of None \<Rightarrow> [] | Some d \<Rightarrow> d);
                     roc_auc = dict_get metrics_dict ''roc_auc'' 0;
                     f1 = dict_get metrics_dict ''f1'' 0
                 in if new_stage = ''production''
                       \<and> roc_auc < dict_get thresholds ''roc_auc'' (75 / 100)
                    then (400, [])
                    else if new_stage = ''production''
                       \<and> f1 < dict_get thresholds ''f1'' (65 / 100)
                    then (400, [])
                    else
                      (let demoted =
                             (if new_stage = ''production''
                              then (case find (\<lambda>m. stage m = ''production'') (ml_models db) of
                                      Some current_prod \<Rightarrow>
                                        (if model_id current_prod \<noteq> model_id model
                                         then set_stage (model_id current_prod) ''candidate''
                                                (ml_models db)
                                         else ml_models db)
                                    | None \<Rightarrow> ml_models db)
                              else ml_models db);
                           db1 = db\<lparr>ml_models := set_stage (model_id model) new_stage demoted\<rparr>;
                           audit = \<lparr>action = ''model_promotion'', resource_type = ''model'',
                                    resource_id = model_id model, details_new_stage = new_stage,
                                    details_metrics = metrics_dict\<rparr>;
                           db2 = db1\<lparr>audit_logs := audit_logs db1 @ [audit]\<rparr>
                       in (200, [db1, db2])))))"

text \<open>The invariant of the registry, and a metric of a model as \<open>promote_model\<close> reads it.\<close>

definition production_models :: "database \<Rightarrow> MLModel list" where
  "production_models db = filter (\<lambda>m. stage m = ''production'') (ml_models db)"

definition at_most_one_production :: "database \<Rightarrow> bool" where
  "at_most_one_production db = (length (production_models db) \<le> 1)"

definition metric :: "MLModel \<Rightarrow> string \<Rightarrow> real" where
  "metric m k = dict_get (case metrics m of None \<Rightarrow> [] | Some d \<Rightarrow> d) k 0"

lemma filter_set_stage_other:
  assumes "s \<noteq> ''production''"
  shows "filter (\<lambda>m. stage m = ''production'') (set_stage mid s ms)
           = filter (\<lambda>m. stage m = ''production'' \<and> model_id m \<noteq> mid) ms"
  using assms by (induction ms) (auto simp: set_stage_def)

lemma model_id_set_stage: "map model_id (set_stage mid s ms) = map model_id ms"
  by (induction ms) (auto simp: set_stage_def)

lemma at_most_one_cases:
  assumes "length (filter P ms) \<le> 1"
  shows "filter P ms = [] \<or> (\<exists>m. filter P ms = [m])"
  using assms by (cases "filter P ms") (auto simp: length_Suc_conv)

lemma find_is_hd_filter:
  "find P ms = (case filter P ms of [] \<Rightarrow> None | m # _ \<Rightarrow> Some m)"
  by (induction ms) auto

lemma ids_of_row:
  assumes "distinct (map model_id ms)" and "mid \<in> set (map model_id ms)"
  shows "map model_id (filter (\<lambda>m. model_id m = mid) ms) = [mid]"
  using assms
proof (induction ms)
  case Nil
  then show ?case by simp
next
  case (Cons m ms)
  show ?case
  proof (cases "model_id m = mid")
    case True
    with Cons.prems have "filter (\<lambda>m. model_id m = mid) ms = []"
      by (auto simp: filter_empty_conv image_iff)
    with True show ?thesis by simp
  next
    case False
    with Cons show ?thesis by auto
  qed
qed

lemma production_after_promotion:
  "map model_id (filter (\<lambda>m. stage m = ''production'') (set_stage mid ''production'' ms))
     = map model_id (filter (\<lambda>m. stage m = ''production'' \<or> model_id m = mid) ms)"
  by (induction ms) (auto simp: set_stage_def)

lemma promoted_alone:
  assumes pk: "distinct (map model_id ms)" and mem: "mid \<in> set (map model_id ms)"
    and none: "filter (\<lambda>m. stage m = ''production'' \<and> model_id m \<noteq> mid) ms = []"
  shows "map model_id (filter (\<lambda>m. stage m = ''production'') (set_stage mid ''production'' ms)) = [mid]"
proof -
  have "filter (\<lambda>m. stage m = ''production'' \<or> model_id m = mid) ms
          = filter (\<lambda>m. model_id m = mid) ms"
    using none by (intro filter_cong) (auto simp: filter_empty_conv)
  then show ?thesis by (simp add: production_after_promotion ids_of_row [OF pk mem])
qed

lemma find_Some_mem: "find P ms = Some m \<Longrightarrow> m \<in> set ms \<and> P m"
  by (induction ms) (auto split: if_splits)

lemma demote_clears:
  assumes one: "length (filter (\<lambda>m. stage m = ''production'') ms) \<le> 1"
    and cp: "find (\<lambda>m. stage m = ''production'') ms = Some cp"
  shows "filter (\<lambda>m. stage m = ''production'') (set_stage (model_id cp) ''candidate'' ms) = []"
proof -
  from cp one have f: "filter (\<lambda>m. stage m = ''production'') ms = [cp]"
    by (cases "filter (\<lambda>m. stage m = ''production'') ms") (auto simp: find_is_hd_filter)
  have "filter (\<lambda>m. stage m = ''production'' \<and> model_id m \<noteq> model_id cp) ms
          = filter (\<lambda>m. model_id m \<noteq> model_id cp) (filter (\<lambda>m. stage m = ''production'') ms)"
    by (simp add: conj_commute)
  also have "\<dots> = []" by (simp add: f)
  finally show ?thesis by (simp add: filter_set_stage_other)
qed

lemma stage_set_stage:
  assumes "m \<in> set ms"
  shows "\<exists>m' \<in> set (set_stage mid s ms). model_id m' = model_id m
            \<and> stage m' = (if model_id m = mid then s else stage m)"
  using assms by (auto simp: set_stage_def intro!: bexI [of _ "if model_id m = mid then m\<lparr>stage := s\<rparr> else m"])

lemma promote_model_refused:
  assumes "promote_model thresholds db mid stage_arg = (code, commits)" and "code \<noteq> 200"
  shows "commits = []"
  using assms
  by (auto simp: promote_model_def Let_def split: option.splits if_splits)

lemma promote_model_candidate:
  assumes inv: "at_most_one_production db"
    and res: "promote_model thresholds db mid stage_arg = (code, commits)"
    and arg: "stage_arg \<noteq> Some ''production''"
  shows "\<forall>db' \<in> set commits. at_most_one_production db'"
proof -
  have le: "length (filter (\<lambda>m. stage m = ''production'' \<and> model_id m \<noteq> x) (ml_models db)) \<le> 1" for x
  proof -
    have "filter (\<lambda>m. stage m = ''production'' \<and> model_id m \<noteq> x) (ml_models db)
        = filter (\<lambda>m. model_id m \<noteq> x) (filter (\<lambda>m. stage m = ''production'') (ml_models db))"
      by (simp add: conj_commute)
    then show ?thesis
      using inv length_filter_le [of "\<lambda>m. model_id m \<noteq> x" "filter (\<lambda>m. stage m = ''production'') (ml_models db)"]
      by (simp add: at_most_one_production_def production_models_def)
  qed
  show ?thesis
    using res arg le
    by (auto simp: promote_model_def Let_def at_most_one_production_def production_models_def
        filter_set_stage_other split: option.splits if_splits)
qed

lemma promote_model_production:
  assumes pk: "distinct (map model_id (ml_models db))" and inv: "at_most_one_production db"
    and res: "promote_model thresholds db mid (Some ''production'') = (200, commits)"
  shows "(\<exists>model \<in> set (ml_models db). model_id model = mid
            \<and> dict_get thresholds ''roc_auc'' (75 / 100) \<le> metric model ''roc_auc''
            \<and> dict_get thresholds ''f1'' (65 / 100) \<le> metric model ''f1'')
       \<and> commits \<noteq> []
       \<and> (\<forall>db' \<in> set commits. map model_id (production_models db') = [mid])
       \<and> (\<forall>m \<in> set (ml_models db). stage m = ''production'' \<and> model_id m \<noteq> mid \<longrightarrow>
             (\<forall>db' \<in> set commits. \<exists>m' \<in> set (ml_models db').
                 model_id m' = model_id m \<and> stage m' = ''candidate''))"
proof -
  let ?ms = "ml_models db"
  let ?prod = "\<lambda>m. stage m = ''production''"
  from res obtain model where fm: "find (\<lambda>m. model_id m = mid) ?ms = Some model"
    by (auto simp: promote_model_def split: option.splits)
  then have mem: "model \<in> set ?ms" and mid: "model_id model = mid"
    using find_Some_mem [of "\<lambda>m. model_id m = mid" ?ms model] by auto
  from res have auc: "dict_get thresholds ''roc_auc'' (75 / 100) \<le> metric model ''roc_auc''"
    and f1: "dict_get thresholds ''f1'' (65 / 100) \<le> metric model ''f1''"
    by (auto simp: promote_model_def fm Let_def metric_def split: if_splits)
  define demoted where "demoted =
     (case find ?prod ?ms of
        Some current_prod \<Rightarrow>
          (if model_id current_prod \<noteq> model_id model
           then set_stage (model_id current_prod) ''candidate'' ?ms else ?ms)
      | None \<Rightarrow> ?ms)"
  define db1 where "db1 = db\<lparr>ml_models := set_stage (model_id model) ''production'' demoted\<rparr>"
  define db2 where "db2 = db1\<lparr>audit_logs := audit_logs db1 @
       [\<lparr>action = ''model_promotion'', resource_type = ''model'', resource_id = model_id model,
         details_new_stage = ''production'',
         details_metrics = (case metrics model of None \<Rightarrow> [] | Some d \<Rightarrow> d)\<rparr>]\<rparr>"
  from res have commits: "commits = [db1, db2]"
    by (auto simp: promote_model_def fm Let_def demoted_def db1_def db2_def split: if_splits)
  have ids: "map model_id demoted = map model_id ?ms"
    by (simp add: demoted_def model_id_set_stage split: option.splits)
  have none: "filter (\<lambda>m. ?prod m \<and> model_id m \<noteq> mid) demoted = []"
  proof (cases "find ?prod ?ms")
    case None
    then have "filter ?prod ?ms = []" by (simp add: find_is_hd_filter split: list.splits)
    then show ?thesis by (auto simp: demoted_def None filter_empty_conv)
  next
    case (Some cp)
    show ?thesis
    proof (cases "model_id cp = mid")
      case True
      from Some inv have "filter ?prod ?ms = [cp]"
        by (cases "filter ?prod ?ms")
          (auto simp: find_is_hd_filter at_most_one_production_def production_models_def)
      then have "filter (\<lambda>m. model_id m \<noteq> mid) (filter ?prod ?ms) = []" using True by simp
      then show ?thesis by (simp add: demoted_def Some True mid conj_commute)
    next
      case False
      have "filter ?prod demoted = []"
        using demote_clears [OF _ Some] inv False
        by (simp add: demoted_def Some mid at_most_one_production_def production_models_def)
      then show ?thesis by (auto simp: filter_empty_conv)
    qed
  qed
  have "mid \<in> set (map model_id demoted)" using mem mid ids by force
  from promoted_alone [OF _ this none] pk ids
  have p1: "map model_id (production_models db1) = [mid]"
    by (simp add: production_models_def db1_def mid)
  then have p2: "map model_id (production_models db2) = [mid]"
    by (simp add: production_models_def db2_def)
  have dem: "\<exists>m' \<in> set (ml_models db1). model_id m' = model_id m \<and> stage m' = ''candidate''"
    if m: "m \<in> set ?ms" "stage m = ''production''" "model_id m \<noteq> mid" for m
  proof -
    have in_f: "m \<in> set (filter ?prod ?ms)" using m by simp
    have "length (filter ?prod ?ms) \<le> 1"
      using inv by (simp add: at_most_one_production_def production_models_def)
    with in_f have f: "filter ?prod ?ms = [m]"
      by (cases "filter ?prod ?ms") (simp_all del: set_filter filter_set)
    then have cp: "find ?prod ?ms = Some m" by (simp add: find_is_hd_filter)
    have d: "demoted = set_stage (model_id m) ''candidate'' ?ms"
      using m(3) by (simp add: demoted_def cp mid)
    from stage_set_stage [OF m(1), of "model_id m" "''candidate''"]
    obtain m1 where m1: "m1 \<in> set demoted" "model_id m1 = model_id m" "stage m1 = ''candidate''"
      unfolding d by auto
    from stage_set_stage [OF m1(1), of mid "''production''"] m1 m(3)
    show ?thesis by (auto simp: db1_def mid)
  qed
  then have dem2: "\<exists>m' \<in> set (ml_models db2). model_id m' = model_id m \<and> stage m' = ''candidate''"
    if m: "m \<in> set ?ms" "stage m = ''production''" "model_id m \<noteq> mid" for m
    using that by (simp add: db2_def)
  show ?thesis
    using mem mid auc f1 p1 p2 dem dem2 by (auto simp: commits)
qed

text \<open>
  Claim C7.  From a registry with distinct model ids and at most one production model,
  whatever the request: every state that \<open>promote_model\<close> commits has at most one
  production model, and a refused request commits nothing.  A promotion to production
  that succeeds is of a model whose \<open>roc_auc\<close> and \<open>f1\<close> reach the thresholds; in every
  committed state, the first included, the promoted model is the only production model and
  the model that was in production before is a candidate.
\<close>

theorem promote_model_invariant:
  assumes pk: "distinct (map model_id (ml_models db))" and inv: "at_most_one_production db"
    and res: "promote_model thresholds db mid stage_arg = (code, commits)"
  shows "(\<forall>db' \<in> set commits. at_most_one_production db')
       \<and> (code \<noteq> 200 \<longrightarrow> commits = [])
       \<and> (code = 200 \<and> stage_arg = Some ''production'' \<longrightarrow>
            (\<exists>model \<in> set (ml_models db). model_id model = mid
                \<and> dict_get thresholds ''roc_auc'' (75 / 100) \<le> metric model ''roc_auc''
                \<and> dict_get thresholds ''f1'' (65 / 100) \<le> metric model ''f1'')
          \<and> commits \<noteq> []
          \<and> (\<forall>db' \<in> set commits. map model_id (production_models db') = [mid])
          \<and> (\<forall>m \<in> set (ml_models db). stage m = ''production'' \<and> model_id m \<noteq> mid \<longrightarrow>
                (\<forall>db' \<in> set commits. \<exists>m' \<in> set (ml_models db').
                    model_id m' = model_id m \<and> stage m' = ''candidate'')))"
proof -
  have one: "\<forall>db' \<in> set commits. at_most_one_production db'"
  proof (cases "stage_arg = Some ''production'' \<and> code = 200")
    case True
    with promote_model_production [OF pk inv, of thresholds mid commits] res
    have "\<forall>db' \<in> set commits. map model_id (production_models db') = [mid]" by simp
    then have "\<forall>db' \<in> set commits. length (map model_id (production_models db')) = 1" by simp
    then show ?thesis by (simp add: at_most_one_production_def)
  next
    case False
    show ?thesis
    proof (cases "stage_arg = Some ''production''")
      case True
      with False promote_model_refused [OF res] show ?thesis by simp
    next
      case False
      from promote_model_candidate [OF inv res False] show ?thesis .
    qed
  qed
  have refused: "code \<noteq> 200 \<longrightarrow> commits = []"
    using promote_model_refused [OF res] by simp
  have promoted: "(\<exists>model \<in> set (ml_models db). model_id model = mid
                \<and> dict_get thresholds ''roc_auc'' (75 / 100) \<le> metric model ''roc_auc''
                \<and> dict_get thresholds ''f1'' (65 / 100) \<le> metric model ''f1'')
          \<and> commits \<noteq> []
          \<and> (\<forall>db' \<in> set commits. map model_id (production_models db') = [mid])
          \<and> (\<forall>m \<in> set (ml_models db). stage m = ''production'' \<and> model_id m \<noteq> mid \<longrightarrow>
                (\<forall>db' \<in> set commits. \<exists>m' \<in> set (ml_models db').
                    model_id m' = model_id m \<and> stage m' = ''candidate''))"
    if a: "code = 200 \<and> stage_arg = Some ''production''"
  proof -
    from a res have "promote_model thresholds db mid (Some ''production'') = (200, commits)" by simp
    from promote_model_production [OF pk inv this] show ?thesis .
  qed
  from one refused promoted show ?thesis by blast
qed

text \<open>
  A registry with a production model A, a candidate B above the default thresholds and a
  model C below them.
\<close>

definition registry :: database where
  "registry =
     \<lparr>ml_models =
        [\<lparr>model_id = ''A'', stage = ''production'',
          metrics = Some [(''roc_auc'', 80 / 100), (''f1'', 70 / 100)],
          s3_path = None, feature_names = None, cv_results = None, pipeline = None,
          scaler_params = None\<rparr>,
         \<lparr>model_id = ''B'', stage = ''candidate'',
          metrics = Some [(''roc_auc'', 90 / 100), (''f1'', 85 / 100)],
          s3_path = None, feature_names = None, cv_results = None, pipeline = None,
          scaler_params = None\<rparr>,
         \<lparr>model_id = ''C'', stage = ''development'',
          metrics = Some [(''roc_auc'', 70 / 100), (''f1'', 60 / 100)],
          s3_path = None, feature_names = None, cv_results = None, pipeline = None,
          scaler_params = None\<rparr>],
      audit_logs = []\<rparr>"

lemma promote_B:
  "fst (promote_model [] registry ''B'' (Some ''production'')) = 200
   \<and> map (\<lambda>d. map (\<lambda>m. (model_id m, stage m)) (ml_models d))
         (snd (promote_model [] registry ''B'' (Some ''production'')))
       = [[(''A'', ''candidate''), (''B'', ''production''), (''C'', ''development'')],
          [(''A'', ''candidate''), (''B'', ''production''), (''C'', ''development'')]]"
  by (simp add: promote_model_def registry_def Let_def dict_get_def set_stage_def)

lemma promote_C_refused:
  "promote_model [] registry ''C'' (Some ''production'') = (400, [])"
  by (simp add: promote_model_def registry_def Let_def dict_get_def)

theorem promote_model_invariant_witness:
  "fst (promote_model [] registry ''B'' (Some ''production'')) = 200
   \<and> list_all at_most_one_production (snd (promote_model [] registry ''B'' (Some ''production'')))
   \<and> list_all (\<lambda>d. map model_id (production_models d) = [''B''])
        (snd (promote_model [] registry ''B'' (Some ''production'')))
   \<and> snd (promote_model [] registry ''B'' (Some ''production'')) \<noteq> []
   \<and> promote_model [] registry ''C'' (Some ''production'') = (400, [])"
proof -
  have pk: "distinct (map model_id (ml_models registry))" by (simp add: registry_def)
  have inv: "at_most_one_production registry"
    by (simp add: at_most_one_production_def production_models_def registry_def)
  obtain commits where res: "promote_model [] registry ''B'' (Some ''production'') = (200, commits)"
    using promote_B by (cases "promote_model [] registry ''B'' (Some ''production'')") auto
  from promote_model_invariant [OF pk inv res] res promote_C_refused
  show ?thesis by (simp add: list_all_iff)
qed

section \<open>The workers of \<open>app/tasks\<close>\<close>


record ProcessingJob =
  job_status :: string
  progress :: real
  job_log :: string
  job_error :: "string option"
  started_at :: "nat option"
  finished_at :: "nat option"

record Recording =
  rec_status :: string
  rec_s3_path :: "string option"
  processed_path :: "string option"
  features_path :: "string option"
  rec_sfreq :: "int option"
  rec_channels :: "nat option"
  duration_sec :: "real option"
  meta :: "string pydict"

record rows =
  job :: ProcessingJob
  recording :: Recording



type_synonym 's step = "'s \<Rightarrow> string option \<times> 's"













subsection \<open>\<open>extract_features_task\<close>\<close>




subsection \<open>\<open>preprocess_recording\<close>\<close>





subsection \<open>\<open>train_model_task\<close>\<close>











subsection \<open>What a step leaves unchanged\<close>









subsection \<open>Failure of a worker\<close>












end
